theory Spec2Isabelle
  imports Complex_Main "HOL-Library.Log_Nat"
begin

section \<open>The keyword density analyzer\<close>

text \<open>
  The analyzer is one request handler (\<^verbatim>\<open>serve(async (req) => ...)\<close>): it answers a
  preflight request, reads \<^verbatim>\<open>url\<close> from the JSON body, fetches the document, strips the
  markup with four regular expression replacements, splits the text into words, counts
  the words longer than three characters in an object and returns the twenty most frequent
  ones with their density.

  A JavaScript string is a sequence of UTF-16 code units. The model keeps the code units
  below U+0100, which are the values of \<^typ>\<open>char\<close>; on them the functions below are the
  ones of ECMAScript.
\<close>

subsection \<open>Characters\<close>

text \<open>
  The white space of \<^verbatim>\<open>\s\<close> and of \<^verbatim>\<open>trim\<close>: tab, line feed, vertical tab, form feed,
  carriage return, space and no-break space.
\<close>

definition isSpace :: "char \<Rightarrow> bool" where
  "isSpace c = (of_char c \<in> {9, 10, 11, 12, 13, 32, 160 :: nat})"

text \<open>
  \<^verbatim>\<open>toLowerCase\<close> on one code unit: the letters A-Z and the capital letters of
  U+00C0..U+00DE (the multiplication sign U+00D7 apart) move up by 32.
\<close>

definition lowerChar :: "char \<Rightarrow> char" where
  "lowerChar c =
     (let n = of_char c :: nat
      in if (65 \<le> n \<and> n \<le> 90) \<or> (192 \<le> n \<and> n \<le> 222 \<and> n \<noteq> 215)
         then char_of (n + 32) else c)"

text \<open>
  The canonical form under which a regular expression with the flag \<^verbatim>\<open>i\<close> compares
  code units: the upper case letter, where it is one code unit of the same range.
\<close>

definition canonicalize :: "char \<Rightarrow> char" where
  "canonicalize c =
     (let n = of_char c :: nat
      in if (97 \<le> n \<and> n \<le> 122) \<or> (224 \<le> n \<and> n \<le> 254 \<and> n \<noteq> 247)
         then char_of (n - 32) else c)"

subsection \<open>Regular expressions\<close>

text \<open>
  The patterns of the handler are sequences of one-character atoms, each taken once,
  greedily (\<^verbatim>\<open>*\<close>, \<^verbatim>\<open>+\<close>) or lazily (\<^verbatim>\<open>*?\<close>). \<open>matchHere\<close> is the backtracking matcher
  of ECMAScript on such a sequence: it returns what is left of the input behind the first
  match the backtracking order finds at the start of the input.
\<close>

datatype atom = Chr char | Ws | NonWs | OneOf "atom list" | NoneOf "atom list"

fun atomMatch :: "bool \<Rightarrow> atom \<Rightarrow> char \<Rightarrow> bool" where
  "atomMatch ic (Chr p) c = (if ic then canonicalize p = canonicalize c else p = c)"
| "atomMatch ic Ws c = isSpace c"
| "atomMatch ic NonWs c = (\<not> isSpace c)"
| "atomMatch ic (OneOf as) c = list_ex (\<lambda>a. atomMatch ic a c) as"
| "atomMatch ic (NoneOf as) c = (\<not> list_ex (\<lambda>a. atomMatch ic a c) as)"

datatype piece = One atom | Star atom | Plus atom | LazyStar atom

type_synonym regex = "piece list"

fun matchHere :: "bool \<Rightarrow> regex \<Rightarrow> string \<Rightarrow> string option" where
  "matchHere ic [] s = Some s"
| "matchHere ic (One a # r) [] = None"
| "matchHere ic (One a # r) (c # cs) =
     (if atomMatch ic a c then matchHere ic r cs else None)"
| "matchHere ic (Plus a # r) [] = None"
| "matchHere ic (Plus a # r) (c # cs) =
     (if atomMatch ic a c then matchHere ic (Star a # r) cs else None)"
| "matchHere ic (Star a # r) [] = matchHere ic r []"
| "matchHere ic (Star a # r) (c # cs) =
     (if atomMatch ic a c
      then (case matchHere ic (Star a # r) cs of
              Some rest \<Rightarrow> Some rest
            | None \<Rightarrow> matchHere ic r (c # cs))
      else matchHere ic r (c # cs))"
| "matchHere ic (LazyStar a # r) [] = matchHere ic r []"
| "matchHere ic (LazyStar a # r) (c # cs) =
     (case matchHere ic r (c # cs) of
        Some rest \<Rightarrow> Some rest
      | None \<Rightarrow> if atomMatch ic a c then matchHere ic (LazyStar a # r) cs else None)"

text \<open>
  \<^verbatim>\<open>s.replace(re, rep)\<close> with the flag \<^verbatim>\<open>g\<close>: the leftmost match is replaced and the
  search goes on behind it; behind an empty match it goes on one code unit further.
\<close>

function replaceAll :: "bool \<Rightarrow> regex \<Rightarrow> string \<Rightarrow> string \<Rightarrow> string" where
  "replaceAll ic re rep [] = (case matchHere ic re [] of Some rest \<Rightarrow> rep | None \<Rightarrow> [])"
| "replaceAll ic re rep (c # cs) =
     (case matchHere ic re (c # cs) of
        None \<Rightarrow> c # replaceAll ic re rep cs
      | Some rest \<Rightarrow>
          if length rest < length (c # cs) then rep @ replaceAll ic re rep rest
          else rep @ c # replaceAll ic re rep cs)"
  by pat_completeness auto
termination
  by (relation "measure (\<lambda>(ic, re, rep, s). length s)") auto

text \<open>
  \<^verbatim>\<open>s.split(re)\<close>: \<open>acc\<close> is the part of the input between the end of the last separator
  and the position tried. A match that ends where the last separator ended splits
  nothing; the empty input gives one empty string unless the pattern matches it.
\<close>

function splitFrom :: "bool \<Rightarrow> regex \<Rightarrow> string \<Rightarrow> string \<Rightarrow> string list" where
  "splitFrom ic re acc [] = [acc]"
| "splitFrom ic re acc (c # cs) =
     (case matchHere ic re (c # cs) of
        None \<Rightarrow> splitFrom ic re (acc @ [c]) cs
      | Some rest \<Rightarrow>
          if length rest < length (c # cs) then acc # splitFrom ic re [] rest
          else if acc = [] then splitFrom ic re [c] cs
          else acc # splitFrom ic re [c] cs)"
  by pat_completeness auto
termination
  by (relation "measure (\<lambda>(ic, re, acc, s). length s)") auto

definition split :: "bool \<Rightarrow> regex \<Rightarrow> string \<Rightarrow> string list" where
  "split ic re s =
     (if s = [] then (case matchHere ic re [] of Some rest \<Rightarrow> [] | None \<Rightarrow> [[]])
      else splitFrom ic re [] s)"

definition trim :: "string \<Rightarrow> string" where
  "trim s = rev (dropWhile isSpace (rev (dropWhile isSpace s)))"

definition toLowerCase :: "string \<Rightarrow> string" where
  "toLowerCase s = map lowerChar s"

subsection \<open>The visible text\<close>

definition lit :: "string \<Rightarrow> regex" where
  "lit s = map (\<lambda>c. One (Chr c)) s"

text \<open>\<^verbatim>\<open>/<style[^>]*>[\s\S]*?<\/style>/gi\<close>\<close>

definition styleRe :: regex where
  "styleRe = lit ''<style'' @ [Star (NoneOf [Chr CHR ''>'']), One (Chr CHR ''>''),
     LazyStar (OneOf [Ws, NonWs])] @ lit ''</style>''"

text \<open>\<^verbatim>\<open>/<script[^>]*>[\s\S]*?<\/script>/gi\<close>\<close>

definition scriptRe :: regex where
  "scriptRe = lit ''<script'' @ [Star (NoneOf [Chr CHR ''>'']), One (Chr CHR ''>''),
     LazyStar (OneOf [Ws, NonWs])] @ lit ''</script>''"

text \<open>\<^verbatim>\<open>/<[^>]+>/g\<close>\<close>

definition tagRe :: regex where
  "tagRe = [One (Chr CHR ''<''), Plus (NoneOf [Chr CHR ''>'']), One (Chr CHR ''>'')]"

text \<open>\<^verbatim>\<open>/\s+/g\<close>, and the separator of \<^verbatim>\<open>split\<close>\<close>

definition spacesRe :: regex where
  "spacesRe = [Plus Ws]"

definition visibleText :: "string \<Rightarrow> string" where
  "visibleText html =
     toLowerCase (trim
       (replaceAll False spacesRe '' ''
         (replaceAll False tagRe '' ''
           (replaceAll True scriptRe []
             (replaceAll True styleRe [] html)))))"

definition words :: "string \<Rightarrow> string list" where
  "words html = split False spacesRe (visibleText html)"

subsection \<open>The frequency table\<close>

text \<open>
  \<^verbatim>\<open>wordFrequency\<close> is an object created by \<^verbatim>\<open>{}\<close>: its own properties, in the order of
  their creation, and behind them the properties it inherits from \<^verbatim>\<open>Object.prototype\<close>.
  A property read gives a number, a text, an inherited function, the prototype itself
  (the accessor \<^verbatim>\<open>__proto__\<close>, where the runtime keeps it: \<open>annexB\<close>) or \<^verbatim>\<open>undefined\<close>.
\<close>

datatype jsvalue = Undefined | Num nat | Text string | Function string | PrototypeObject

type_synonym object = "(string \<times> jsvalue) list"

definition objectPrototype :: "bool \<Rightarrow> string \<Rightarrow> jsvalue" where
  "objectPrototype annexB key =
     (if key = ''constructor'' then Function ''Object''
      else if key \<in> set [''hasOwnProperty'', ''isPrototypeOf'', ''propertyIsEnumerable'',
        ''toLocaleString'', ''toString'', ''valueOf'', ''__defineGetter__'',
        ''__defineSetter__'', ''__lookupGetter__'', ''__lookupSetter__''] then Function key
      else if annexB \<and> key = ''__proto__'' then PrototypeObject
      else Undefined)"

text \<open>\<^verbatim>\<open>wordFrequency[word]\<close>, read\<close>

definition getProperty :: "bool \<Rightarrow> object \<Rightarrow> string \<Rightarrow> jsvalue" where
  "getProperty annexB obj key =
     (case map_of obj key of Some v \<Rightarrow> v | None \<Rightarrow> objectPrototype annexB key)"

fun assign :: "'k \<Rightarrow> 'v \<Rightarrow> ('k \<times> 'v) list \<Rightarrow> ('k \<times> 'v) list" where
  "assign key v [] = [(key, v)]"
| "assign key v ((k, w) # ps) = (if k = key then (k, v) # ps else (k, w) # assign key v ps)"

text \<open>
  \<^verbatim>\<open>wordFrequency[word] = v\<close>, for a number or a text \<open>v\<close>: the setter of \<^verbatim>\<open>__proto__\<close>
  ignores a value that is no object, every other key becomes or stays an own property.
\<close>

definition setProperty :: "bool \<Rightarrow> object \<Rightarrow> string \<Rightarrow> jsvalue \<Rightarrow> object" where
  "setProperty annexB obj key v =
     (if annexB \<and> key = ''__proto__'' then obj else assign key v obj)"

definition functionText :: "string \<Rightarrow> string" where
  "functionText f = ''function '' @ f @ ''() { [native code] }''"

text \<open>
  \<^verbatim>\<open>(v || 0) + 1\<close>: \<^verbatim>\<open>undefined\<close>, 0 and the empty text give way to 0; a number is added
  to (a double: at \<open>2\<^sup>5\<^sup>3\<close> the sum is rounded back to \<open>2\<^sup>5\<^sup>3\<close>), a text, a function or an
  object is turned into text and 1 is appended.
\<close>

fun increment :: "jsvalue \<Rightarrow> jsvalue" where
  "increment Undefined = Num 1"
| "increment (Num n) = Num (if int n < 9007199254740992 then n + 1 else n)"
| "increment (Text s) = (if s = [] then Num 1 else Text (s @ ''1''))"
| "increment (Function f) = Text (functionText f @ ''1'')"
| "increment PrototypeObject = Text ''[object Object]1''"

definition countWord :: "bool \<Rightarrow> object \<Rightarrow> string \<Rightarrow> object" where
  "countWord annexB freq word =
     (if length word > 3
      then setProperty annexB freq word (increment (getProperty annexB freq word))
      else freq)"

definition wordFrequency :: "bool \<Rightarrow> string list \<Rightarrow> object" where
  "wordFrequency annexB ws = foldl (countWord annexB) [] ws"

text \<open>
  \<^verbatim>\<open>Object.entries\<close>: the keys that are array indices (canonical decimal numbers below
  \<open>2\<^sup>3\<^sup>2 - 1\<close>) in ascending order, then the other keys in the order of their creation.
\<close>

definition isDigit :: "char \<Rightarrow> bool" where
  "isDigit c = (48 \<le> (of_char c :: nat) \<and> (of_char c :: nat) \<le> 57)"

definition digitsValue :: "string \<Rightarrow> int" where
  "digitsValue s = foldl (\<lambda>n c. 10 * n + (of_char c - 48)) 0 s"

definition isArrayIndex :: "string \<Rightarrow> bool" where
  "isArrayIndex key =
     (key \<noteq> [] \<and> list_all isDigit key \<and> (key = ''0'' \<or> hd key \<noteq> CHR ''0'') \<and>
      length key \<le> 10 \<and> digitsValue key < 4294967295)"

definition entries :: "(string \<times> 'v) list \<Rightarrow> (string \<times> 'v) list" where
  "entries obj =
     sort_key (\<lambda>(k, v). digitsValue k) (filter (\<lambda>(k, v). isArrayIndex k) obj) @
     filter (\<lambda>(k, v). \<not> isArrayIndex k) obj"

subsection \<open>Density and ranking\<close>

text \<open>
  A number of the result is an IEEE 754 double; a finite one is kept as the real number it
  denotes. The quotient and the product of \<^verbatim>\<open>(count / totalWords) * 100\<close> are each rounded
  to the nearest double, ties to even. \<open>halfEven a b\<close> is the integer nearest to \<open>a / b\<close>,
  \<open>exponent a b\<close> the \<open>e\<close> with \<open>2\<^sup>e \<le> a / b < 2\<^sup>e\<^sup>+\<^sup>1\<close>, and \<open>roundDouble a b\<close> the double
  nearest to \<open>a / b\<close> as \<open>(m, p)\<close>, which stands for \<open>m \<cdot> 2\<^sup>p\<close>: 53 bits of it, fewer below
  \<open>2\<^sup>-\<^sup>1\<^sup>0\<^sup>2\<^sup>2\<close>.
\<close>

datatype number = NaN | Infinity | Finite real

definition halfEven :: "int \<Rightarrow> int \<Rightarrow> int" where
  "halfEven a b =
     (let q = a div b; r = a mod b
      in if 2 * r < b then q else if b < 2 * r then q + 1 else if even q then q else q + 1)"

definition exponent :: "int \<Rightarrow> int \<Rightarrow> int" where
  "exponent a b =
     (let k = bitlen a - bitlen b
      in if (if 0 \<le> k then b * 2 ^ nat k \<le> a else b \<le> a * 2 ^ nat (- k)) then k else k - 1)"

definition roundDouble :: "int \<Rightarrow> int \<Rightarrow> int \<times> int" where
  "roundDouble a b =
     (if a = 0 then (0, 0)
      else let p = max (exponent a b) (- 1022) - 52
           in (if 0 \<le> p then halfEven a (b * 2 ^ nat p) else halfEven (a * 2 ^ nat (- p)) b, p))"

fun timesDouble :: "int \<times> int \<Rightarrow> int \<Rightarrow> int \<times> int" where
  "timesDouble (m, p) c =
     (if 0 \<le> p then roundDouble (m * 2 ^ nat p * c) 1 else roundDouble (m * c) (2 ^ nat (- p)))"

fun doubleValue :: "int \<times> int \<Rightarrow> real" where
  "doubleValue (m, p) =
     (if 0 \<le> p then of_int (m * 2 ^ nat p) else of_int m / of_int (2 ^ nat (- p)))"

record KeywordDensity =
  keyword :: string
  count :: jsvalue
  density :: number

text \<open>
  \<^verbatim>\<open>(count / totalWords) * 100\<close>. A count that is a number is an integer up to \<open>2\<^sup>5\<^sup>3\<close> and
  \<^verbatim>\<open>totalWords\<close> is the length of an array, below \<open>2\<^sup>3\<^sup>2\<close>: doubles hold both exactly, and
  a product of at most \<open>100 \<cdot> 2\<^sup>5\<^sup>3\<close> is far from the largest double. A divisor 0 gives
  \<open>Infinity\<close>, or \<open>NaN\<close> for \<^verbatim>\<open>0 / 0\<close>. A count that is a text is turned into a number
  first; the texts of \<open>increment\<close> start with a letter and are no numeric literal, so the
  quotient is \<open>NaN\<close>.
\<close>

fun densityOf :: "jsvalue \<Rightarrow> nat \<Rightarrow> number" where
  "densityOf (Num n) tw =
     (if tw = 0 then (if n = 0 then NaN else Infinity)
      else Finite (doubleValue (timesDouble (roundDouble (int n) (int tw)) 100)))"
| "densityOf v tw = NaN"

text \<open>
  The comparator \<^verbatim>\<open>(a, b) => b.count - a.count\<close>; \<^verbatim>\<open>sort\<close> takes the result \<open>NaN\<close> of a
  count that is a text as 0.
\<close>

fun compareFn :: "KeywordDensity \<Rightarrow> KeywordDensity \<Rightarrow> int" where
  "compareFn a b =
     (case (count b, count a) of
        (Num y, Num x) \<Rightarrow> int y - int x
      | _ \<Rightarrow> 0)"

definition numeric :: "KeywordDensity \<Rightarrow> bool" where
  "numeric e = (case count e of Num n \<Rightarrow> True | _ \<Rightarrow> False)"

text \<open>
  \<^verbatim>\<open>sort\<close> is stable. Where every count is a number the comparator is an ordering and
  the result is the one of every stable sort, here of an insertion sort.
\<close>

fun insertBy :: "KeywordDensity \<Rightarrow> KeywordDensity list \<Rightarrow> KeywordDensity list" where
  "insertBy a [] = [a]"
| "insertBy a (b # bs) = (if compareFn a b \<le> 0 then a # b # bs else b # insertBy a bs)"

text \<open>
  With a text among the counts the comparator is no ordering, and ECMAScript leaves the
  order to the implementation. V8, on fewer than 64 elements: the run the array starts
  with is found (and reversed where it descends strictly), then every further element is
  put into it at the place a binary search gives.
\<close>

fun runLength :: "bool \<Rightarrow> KeywordDensity \<Rightarrow> KeywordDensity list \<Rightarrow> nat" where
  "runLength descending previous [] = 0"
| "runLength descending previous (x # xs) =
     (if (if descending then 0 \<le> compareFn x previous else compareFn x previous < 0) then 0
      else Suc (runLength descending x xs))"

function binarySearch :: "KeywordDensity \<Rightarrow> KeywordDensity list \<Rightarrow> nat \<Rightarrow> nat \<Rightarrow> nat" where
  "binarySearch pivot placed left right =
     (if left < right
      then (let mid = left + (right - left) div 2
            in if compareFn pivot (placed ! mid) < 0 then binarySearch pivot placed left mid
               else binarySearch pivot placed (mid + 1) right)
      else left)"
  by pat_completeness auto
termination
  by (relation "measure (\<lambda>(pivot, placed, left, right). right - left)") auto

declare binarySearch.simps [simp del]

definition binaryInsert :: "KeywordDensity list \<Rightarrow> KeywordDensity \<Rightarrow> KeywordDensity list" where
  "binaryInsert placed pivot =
     (let i = binarySearch pivot placed 0 (length placed)
      in take i placed @ pivot # drop i placed)"

definition timSortShort :: "KeywordDensity list \<Rightarrow> KeywordDensity list" where
  "timSortShort xs =
     (case xs of
        a # b # rest \<Rightarrow>
          (let descending = compareFn b a < 0;
               n = 2 + runLength descending b rest;
               run = (if descending then rev (take n xs) else take n xs)
           in foldl binaryInsert run (drop n xs))
      | _ \<Rightarrow> xs)"

text \<open>
  On 64 elements and more V8 merges several runs, which changes nothing where the
  comparator is an ordering; with a text among that many counts the merges are not
  modelled, and the model keeps to the insertion of the short case.
\<close>

definition sortEntries :: "KeywordDensity list \<Rightarrow> KeywordDensity list" where
  "sortEntries xs = (if list_all numeric xs then foldr insertBy xs [] else timSortShort xs)"

record AnalysisResult =
  keywordDensity :: "KeywordDensity list"
  totalWords :: nat

text \<open>The handler from \<^verbatim>\<open>const visibleText\<close> to \<^verbatim>\<open>.slice(0, 20)\<close>\<close>

definition analyze :: "bool \<Rightarrow> string \<Rightarrow> AnalysisResult" where
  "analyze annexB html =
     (let ws = words html;
          tw = length ws;
          freq = wordFrequency annexB ws
      in \<lparr>keywordDensity =
            take 20 (sortEntries
              (map (\<lambda>(k, c). \<lparr>keyword = k, count = c, density = densityOf c tw\<rparr>)
                 (entries freq))),
          totalWords = tw\<rparr>)"

subsection \<open>The handler\<close>

text \<open>
  What the handler is given: the request with its method and with what \<^verbatim>\<open>req.json()\<close>
  resolves to (\<open>Inl\<close>: the message of the error it rejects with), and the runtime with
  the headers of \<^verbatim>\<open>../_shared/cors.ts\<close>, with \<^verbatim>\<open>fetch\<close> and with the message of the
  \<^verbatim>\<open>TypeError\<close> of destructuring \<^verbatim>\<open>null\<close>. \<^verbatim>\<open>fetch\<close> rejects with an error or resolves to a
  response, whose \<^verbatim>\<open>text()\<close> resolves or rejects in turn.
\<close>

datatype jsonValue =
  JNull | JBool bool | JNumber real | JString string
  | JArray "jsonValue list" | JObject "(string \<times> jsonValue) list"

record request =
  method' :: string
  json :: "string + jsonValue"

record upstream =
  ok :: bool
  statusText :: string
  text' :: "string + string"

datatype fetched = Rejected string | Resolved upstream

record runtime =
  corsHeaders :: "(string \<times> string) list"
  fetch :: "jsonValue \<Rightarrow> fetched"
  annexB :: bool
  destructureNull :: string

text \<open>
  The body of a response is a text, or \<^verbatim>\<open>JSON.stringify\<close> of a result, kept as the result
  (how a double is printed is outside the model).
\<close>

datatype body = Raw string | ResultJson AnalysisResult

record response =
  status :: nat
  headers :: "(string \<times> string) list"
  body :: body

text \<open>
  \<^verbatim>\<open>const { url } = await req.json()\<close>: \<^verbatim>\<open>null\<close> throws; of the members of an object that
  are named \<^verbatim>\<open>url\<close> the last counts; every other value has no such property.
\<close>

fun urlOf :: "runtime \<Rightarrow> jsonValue \<Rightarrow> string + jsonValue option" where
  "urlOf rt JNull = Inl (destructureNull rt)"
| "urlOf rt (JObject members) = Inr (map_of (rev members) ''url'')"
| "urlOf rt v = Inr None"

fun truthy :: "jsonValue option \<Rightarrow> bool" where
  "truthy None = False"
| "truthy (Some JNull) = False"
| "truthy (Some (JBool b)) = b"
| "truthy (Some (JNumber x)) = (x \<noteq> 0)"
| "truthy (Some (JString s)) = (s \<noteq> [])"
| "truthy (Some v) = True"

text \<open>The \<^verbatim>\<open>try\<close> block: \<open>Inl\<close> is the message of the error thrown.\<close>

definition tryBlock :: "runtime \<Rightarrow> request \<Rightarrow> string + AnalysisResult" where
  "tryBlock rt req =
     (case json req of
        Inl message \<Rightarrow> Inl message
      | Inr parsed \<Rightarrow>
          (case urlOf rt parsed of
             Inl message \<Rightarrow> Inl message
           | Inr url \<Rightarrow>
               (case (if truthy url then url else None) of
                  None \<Rightarrow> Inl ''URL is required''
                | Some u \<Rightarrow>
                    (case fetch rt u of
                       Rejected message \<Rightarrow> Inl message
                     | Resolved response \<Rightarrow>
                         if \<not> ok response
                         then Inl (''Failed to fetch URL: '' @ statusText response)
                         else (case text' response of
                                 Inl message \<Rightarrow> Inl message
                               | Inr html \<Rightarrow> Inr (analyze (annexB rt) html))))))"

text \<open>\<^verbatim>\<open>JSON.stringify({ error: error.message })\<close>\<close>

definition hexDigit :: "nat \<Rightarrow> char" where
  "hexDigit n = (''0123456789abcdef'') ! (n mod 16)"

definition quoteChar :: "char \<Rightarrow> string" where
  "quoteChar c =
     (let n = of_char c :: nat
      in if n = 34 then [CHR 0x5C, CHR 0x22]
         else if n = 92 then [CHR 0x5C, CHR 0x5C]
         else if n = 8 then [CHR 0x5C, CHR ''b'']
         else if n = 9 then [CHR 0x5C, CHR ''t'']
         else if n = 10 then [CHR 0x5C, CHR ''n'']
         else if n = 12 then [CHR 0x5C, CHR ''f'']
         else if n = 13 then [CHR 0x5C, CHR ''r'']
         else if n < 32
           then [CHR 0x5C, CHR ''u'', CHR ''0'', CHR ''0'', hexDigit (n div 16), hexDigit n]
         else [c])"

definition quote :: "string \<Rightarrow> string" where
  "quote s = [CHR 0x22] @ concat (map quoteChar s) @ [CHR 0x22]"

definition stringifyError :: "string \<Rightarrow> string" where
  "stringifyError message = ''{'' @ quote ''error'' @ '':'' @ quote message @ ''}''"

definition handler :: "runtime \<Rightarrow> request \<Rightarrow> response" where
  "handler rt req =
     (if method' req = ''OPTIONS''
      then \<lparr>status = 200, headers = corsHeaders rt, body = Raw ''ok''\<rparr>
      else (case tryBlock rt req of
              Inr result \<Rightarrow>
                \<lparr>status = 200,
                 headers = assign ''Content-Type'' ''application/json'' (corsHeaders rt),
                 body = ResultJson result\<rparr>
            | Inl message \<Rightarrow>
                \<lparr>status = 500,
                 headers = assign ''Content-Type'' ''application/json'' (corsHeaders rt),
                 body = Raw (stringifyError message)\<rparr>))"

subsection \<open>The normalization of the specification\<close>

text \<open>
  The steps of the specification, written with no regular expression and with none of
  the functions above. White space is the white space of ECMAScript, the only one the
  specification can mean; lower case is read from a table of the capital letters.
\<close>

definition whitespace :: "char \<Rightarrow> bool" where
  "whitespace c =
     (c \<in> set [CHR 0x09, CHR 0x0A, CHR 0x0B, CHR 0x0C, CHR 0x0D, CHR 0x20, CHR 0xA0])"

definition capitals :: string where
  "capitals = ''ABCDEFGHIJKLMNOPQRSTUVWXYZ'' @
     [CHR 0xC0, CHR 0xC1, CHR 0xC2, CHR 0xC3, CHR 0xC4, CHR 0xC5, CHR 0xC6, CHR 0xC7,
      CHR 0xC8, CHR 0xC9, CHR 0xCA, CHR 0xCB, CHR 0xCC, CHR 0xCD, CHR 0xCE, CHR 0xCF,
      CHR 0xD0, CHR 0xD1, CHR 0xD2, CHR 0xD3, CHR 0xD4, CHR 0xD5, CHR 0xD6,
      CHR 0xD8, CHR 0xD9, CHR 0xDA, CHR 0xDB, CHR 0xDC, CHR 0xDD, CHR 0xDE]"

definition smalls :: string where
  "smalls = ''abcdefghijklmnopqrstuvwxyz'' @
     [CHR 0xE0, CHR 0xE1, CHR 0xE2, CHR 0xE3, CHR 0xE4, CHR 0xE5, CHR 0xE6, CHR 0xE7,
      CHR 0xE8, CHR 0xE9, CHR 0xEA, CHR 0xEB, CHR 0xEC, CHR 0xED, CHR 0xEE, CHR 0xEF,
      CHR 0xF0, CHR 0xF1, CHR 0xF2, CHR 0xF3, CHR 0xF4, CHR 0xF5, CHR 0xF6,
      CHR 0xF8, CHR 0xF9, CHR 0xFA, CHR 0xFB, CHR 0xFC, CHR 0xFD, CHR 0xFE]"

definition lowercase :: "char \<Rightarrow> char" where
  "lowercase c = (case map_of (zip capitals smalls) c of Some small \<Rightarrow> small | None \<Rightarrow> c)"

text \<open>Lowercasing, and trimming: the white space before the first and behind the last
  other character goes.\<close>

definition lower :: "string \<Rightarrow> string" where
  "lower s = map lowercase s"

fun dropTrailing :: "string \<Rightarrow> string" where
  "dropTrailing [] = []"
| "dropTrailing (c # cs) = (if list_all whitespace (c # cs) then [] else c # dropTrailing cs)"

definition strip :: "string \<Rightarrow> string" where
  "strip s = dropTrailing (dropWhile whitespace s)"

text \<open>
  A block of \<open>name\<close> opens with a tag of this name, in any case, with or without
  attributes: \<^verbatim>\<open><name\<close>, then the end of the name (\<^verbatim>\<open>>\<close>, \<^verbatim>\<open>/\<close> or white space), then
  everything up to the next \<^verbatim>\<open>>\<close>. It runs up to the first \<^verbatim>\<open></name>\<close> behind that, in any
  case, which closes it; a block may span lines.
\<close>

definition startsCI :: "string \<Rightarrow> string \<Rightarrow> bool" where
  "startsCI p s = (lower (take (length p) s) = p)"

fun afterFirst :: "string \<Rightarrow> string \<Rightarrow> string option" where
  "afterFirst p [] = (if p = [] then Some [] else None)"
| "afterFirst p (c # cs) =
     (if startsCI p (c # cs) then Some (drop (length p) (c # cs)) else afterFirst p cs)"

definition untilGt :: "string \<Rightarrow> string option" where
  "untilGt s = (case dropWhile (\<lambda>c. c \<noteq> CHR ''>'') s of [] \<Rightarrow> None | gt # rest \<Rightarrow> Some rest)"

definition nameEnds :: "string \<Rightarrow> bool" where
  "nameEnds s = (case s of [] \<Rightarrow> False | c # cs \<Rightarrow> c = CHR ''>'' \<or> c = CHR ''/'' \<or> whitespace c)"

definition block :: "string \<Rightarrow> string \<Rightarrow> string option" where
  "block name s =
     (if startsCI (''<'' @ name) s \<and> nameEnds (drop (length (''<'' @ name)) s)
      then (case untilGt (drop (length (''<'' @ name)) s) of
              None \<Rightarrow> None
            | Some inner \<Rightarrow> afterFirst (''</'' @ name @ ''>'') inner)
      else None)"

lemma afterFirst_length: "afterFirst p s = Some r \<Longrightarrow> length r \<le> length s"
  by (induction s) (auto split: if_splits)

lemma untilGt_length: "untilGt s = Some r \<Longrightarrow> length r < length s"
proof -
  assume a: "untilGt s = Some r"
  then obtain g where "dropWhile (\<lambda>c. c \<noteq> CHR ''>'') s = g # r"
    by (auto simp: untilGt_def split: list.splits)
  moreover have "length (dropWhile (\<lambda>c. c \<noteq> CHR ''>'') s) \<le> length s"
    by (rule length_dropWhile_le)
  ultimately show ?thesis by simp
qed

lemma block_length: "block name s = Some r \<Longrightarrow> length r < length s"
  by (auto simp: block_def split: if_splits option.splits
      dest!: afterFirst_length untilGt_length)

function removeBlocks :: "string \<Rightarrow> string \<Rightarrow> string" where
  "removeBlocks name [] = []"
| "removeBlocks name (c # cs) =
     (case block name (c # cs) of
        Some rest \<Rightarrow> removeBlocks name rest
      | None \<Rightarrow> c # removeBlocks name cs)"
  by pat_completeness auto
termination
  by (relation "measure (\<lambda>(name, s). length s)") (auto dest: block_length)

text \<open>A tag is \<^verbatim>\<open><\<close>, one character or more that are not \<^verbatim>\<open>>\<close>, and \<^verbatim>\<open>>\<close>.\<close>

definition tag :: "string \<Rightarrow> string option" where
  "tag s =
     (case s of
        lt # c # cs \<Rightarrow> if lt = CHR ''<'' \<and> c \<noteq> CHR ''>'' then untilGt cs else None
      | _ \<Rightarrow> None)"

lemma tag_length: "tag s = Some r \<Longrightarrow> length r < length s"
  by (auto simp: tag_def split: list.splits if_splits dest!: untilGt_length)

function replaceTags :: "string \<Rightarrow> string" where
  "replaceTags [] = []"
| "replaceTags (c # cs) =
     (case tag (c # cs) of
        Some rest \<Rightarrow> CHR '' '' # replaceTags rest
      | None \<Rightarrow> c # replaceTags cs)"
  by pat_completeness auto
termination
  by (relation "measure length") (auto dest: tag_length)

function collapseSpaces :: "string \<Rightarrow> string" where
  "collapseSpaces [] = []"
| "collapseSpaces (c # cs) =
     (if whitespace c then CHR '' '' # collapseSpaces (dropWhile whitespace cs)
      else c # collapseSpaces cs)"
  by pat_completeness auto
termination
  by (relation "measure length") (auto simp: length_dropWhile_le less_Suc_eq_le)

text \<open>The six steps, in the order of the specification.\<close>

definition normalize :: "string \<Rightarrow> string" where
  "normalize html =
     lower (strip (collapseSpaces (replaceTags
       (removeBlocks ''script'' (removeBlocks ''style'' html)))))"

text \<open>
  The documents in which no tag name merely begins with \<open>name\<close>: wherever the text goes on
  with \<^verbatim>\<open><name\<close>, the name ends there.
\<close>

fun wellNamed :: "string \<Rightarrow> string \<Rightarrow> bool" where
  "wellNamed name [] = True"
| "wellNamed name (c # cs) =
     ((\<not> startsCI (''<'' @ name) (c # cs) \<or> nameEnds (drop (length (''<'' @ name)) (c # cs))) \<and>
      wellNamed name cs)"

text \<open>
  The tokens of the specification: the maximal runs of characters that are no white space.
\<close>

fun tokensFrom :: "string \<Rightarrow> string \<Rightarrow> string list" where
  "tokensFrom acc [] = (if acc = [] then [] else [acc])"
| "tokensFrom acc (c # cs) =
     (if whitespace c then (if acc = [] then tokensFrom [] cs else acc # tokensFrom [] cs)
      else tokensFrom (acc @ [c]) cs)"

definition tokens :: "string \<Rightarrow> string list" where
  "tokens s = tokensFrom [] s"

subsection \<open>What the claims say of a result\<close>

text \<open>
  A count that is a number and at least 1; a density that is a number of \<open>[0, 100]\<close>; the
  order \<open>\<ge>\<close> of two counts, in which a count that is no number stands with no other.
\<close>

fun countAtLeast1 :: "jsvalue \<Rightarrow> bool" where
  "countAtLeast1 (Num n) = (1 \<le> n)"
| "countAtLeast1 v = False"

fun densityInRange :: "number \<Rightarrow> bool" where
  "densityInRange (Finite d) = (0 \<le> d \<and> d \<le> 100)"
| "densityInRange x = False"

fun countGe :: "jsvalue \<Rightarrow> jsvalue \<Rightarrow> bool" where
  "countGe (Num x) (Num y) = (y \<le> x)"
| "countGe v w = False"

definition upperAscii :: "char \<Rightarrow> bool" where
  "upperAscii c = (65 \<le> (of_char c :: nat) \<and> (of_char c :: nat) \<le> 90)"

text \<open>
  The table after \<open>m\<close> words, as it is meant: every key is longer than three characters
  and every value is a number from 1 to \<open>m\<close>.
\<close>

fun countedValue :: "nat \<Rightarrow> jsvalue \<Rightarrow> bool" where
  "countedValue m (Num n) = (1 \<le> n \<and> n \<le> m)"
| "countedValue m v = False"

definition counted :: "nat \<Rightarrow> object \<Rightarrow> bool" where
  "counted m freq = list_all (\<lambda>(k, v). 3 < length k \<and> countedValue m v) freq"

text \<open>
  The values the table holds: numbers, and texts that begin with the word \<open>function\<close>
  (\<open>wordFrequency_text\<close>), none of which is a numeric literal.
\<close>

fun stored :: "jsvalue \<Rightarrow> bool" where
  "stored (Num n) = True"
| "stored (Text s) = (take 9 s = ''function '')"
| "stored v = False"

subsection \<open>The matcher on the patterns of the handler\<close>

lemma of_char_lt: "of_char (c::char) < (256::nat)"
  by (metis of_char_mod_256 mod_less_divisor zero_less_numeral)

lemma of_char_canonicalize:
  "(of_char (canonicalize c) :: nat) =
     (if (97 \<le> (of_char c :: nat) \<and> (of_char c :: nat) \<le> 122) \<or>
         (224 \<le> (of_char c :: nat) \<and> (of_char c :: nat) \<le> 254 \<and> (of_char c :: nat) \<noteq> 247)
      then of_char c - 32 else of_char c)"
  using of_char_lt [of c] by (auto simp: canonicalize_def Let_def)

lemma of_char_lowerChar:
  "(of_char (lowerChar c) :: nat) =
     (if (65 \<le> (of_char c :: nat) \<and> (of_char c :: nat) \<le> 90) \<or>
         (192 \<le> (of_char c :: nat) \<and> (of_char c :: nat) \<le> 222 \<and> (of_char c :: nat) \<noteq> 215)
      then of_char c + 32 else of_char c)"
  using of_char_lt [of c] by (simp add: lowerChar_def Let_def)

lemma char_eq_nat: "(x::char) = y \<longleftrightarrow> (of_char x :: nat) = of_char y"
  by simp

lemma lower_canon: "lowerChar (canonicalize c) = lowerChar c"
  unfolding char_eq_nat of_char_lowerChar of_char_canonicalize by auto

lemma canon_lower: "canonicalize (lowerChar c) = canonicalize c"
  unfolding char_eq_nat of_char_lowerChar of_char_canonicalize by auto

lemma canon_eq_iff: "canonicalize a = canonicalize b \<longleftrightarrow> lowerChar a = lowerChar b"
  by (metis lower_canon canon_lower)

lemma isSpace_lowerChar: "isSpace (lowerChar c) = isSpace c"
  unfolding isSpace_def of_char_lowerChar by auto

lemma isSpace_whitespace: "isSpace = whitespace"
proof
  fix c
  show "isSpace c = whitespace c"
    unfolding isSpace_def whitespace_def list.set insert_iff char_eq_nat by simp
qed

definition capitalCodes :: "nat list" where
  "capitalCodes = [65..<91] @ [192..<215] @ [216..<223]"

lemma capitals_codes: "capitals = map char_of capitalCodes"
  by (simp add: capitals_def capitalCodes_def char_of_def bit_0)

lemma smalls_codes: "smalls = map (\<lambda>n. char_of (n + 32)) capitalCodes"
  by (simp add: smalls_def capitalCodes_def char_of_def bit_0)

lemma capitalCodes_iff:
  "n \<in> set capitalCodes \<longleftrightarrow> (65 \<le> n \<and> n \<le> 90) \<or> (192 \<le> n \<and> n \<le> 222 \<and> n \<noteq> 215)"
  by (simp add: capitalCodes_def del: upt_rec_numeral) arith

lemma map_of_zip_maps:
  "inj_on f (insert x (set xs)) \<Longrightarrow>
   map_of (zip (map f xs) (map g xs)) (f x) = (if x \<in> set xs then Some (g x) else None)"
proof (induction xs)
  case Nil
  then show ?case by simp
next
  case (Cons a xs)
  have i: "inj_on f (insert x (set xs))" using Cons.prems by (rule inj_on_subset) auto
  have "f a = f x \<longleftrightarrow> a = x" using Cons.prems by (auto simp: inj_on_def)
  then show ?case using Cons.IH [OF i] by auto
qed

lemma lowerChar_lowercase: "lowerChar = lowercase"
proof
  fix c
  let ?n = "of_char c :: nat"
  have "inj_on (char_of :: nat \<Rightarrow> char) {0..<256}"
    by (rule inj_onI) (metis atLeastLessThan_iff mod_less of_char_of)
  moreover have "insert ?n (set capitalCodes) \<subseteq> {0..<256}"
    using of_char_lt [of c] by (auto simp: capitalCodes_iff)
  ultimately have "inj_on (char_of :: nat \<Rightarrow> char) (insert ?n (set capitalCodes))"
    by (rule inj_on_subset)
  from map_of_zip_maps [OF this, of "\<lambda>n. char_of (n + 32)"]
  have "map_of (zip capitals smalls) c =
      (if ?n \<in> set capitalCodes then Some (char_of (?n + 32)) else None)"
    by (simp add: capitals_codes smalls_codes)
  then show "lowerChar c = lowercase c"
    by (simp add: lowercase_def lowerChar_def Let_def capitalCodes_iff)
qed

lemma toLowerCase_lower: "toLowerCase s = lower s"
  by (simp add: toLowerCase_def lower_def lowerChar_lowercase)

lemma dropTrailing_all: "list_all whitespace s \<Longrightarrow> dropTrailing s = []"
  by (cases s) simp_all

lemma dropTrailing_rev: "rev (dropWhile whitespace (rev s)) = dropTrailing s"
proof (induction s)
  case Nil
  then show ?case by simp
next
  case (Cons c cs)
  show ?case
  proof (cases "list_all whitespace cs")
    case True
    then show ?thesis
      by (simp add: dropWhile_append list_all_iff dropTrailing_all)
  next
    case False
    have "dropWhile whitespace (rev cs) = rev (dropTrailing cs)"
      using Cons by (metis rev_rev_ident)
    then show ?thesis using False by (auto simp: dropWhile_append list_all_iff)
  qed
qed

lemma trim_strip: "trim s = strip s"
  by (simp add: trim_def strip_def isSpace_whitespace dropTrailing_rev)

lemma lowerChar_gt: "lowerChar c = CHR ''>'' \<longleftrightarrow> c = CHR ''>''"
  unfolding char_eq_nat of_char_lowerChar by auto

lemma atomMatch_Chr_ci: "lowerChar p = p \<Longrightarrow> atomMatch True (Chr p) c \<longleftrightarrow> lowerChar c = p"
  by (auto simp: canon_eq_iff)

lemma atomMatch_gt: "atomMatch ic (Chr CHR ''>'') c \<longleftrightarrow> c = CHR ''>''"
proof (cases ic)
  case True
  have "lowerChar CHR ''>'' = CHR ''>''" by (simp add: lowerChar_def)
  then show ?thesis using True by (simp add: atomMatch_Chr_ci lowerChar_gt del: atomMatch.simps)
next
  case False
  then show ?thesis by auto
qed

lemma atomMatch_notGt: "atomMatch ic (NoneOf [Chr CHR ''>'']) c \<longleftrightarrow> c \<noteq> CHR ''>''"
  using atomMatch_gt [of ic c] by simp

lemma untilGt_simps:
  "untilGt [] = None"
  "untilGt (c # cs) = (if c = CHR ''>'' then Some cs else untilGt cs)"
  by (simp_all add: untilGt_def)

lemma startsCI_simps:
  "startsCI [] s = True"
  "startsCI (a # p) [] = False"
  "startsCI (a # p) (c # cs) = (lowerChar c = a \<and> startsCI p cs)"
  by (simp_all add: startsCI_def lower_def lowerChar_lowercase)

lemma matchHere_lit_ci:
  "list_all (\<lambda>c. lowerChar c = c) p \<Longrightarrow>
   matchHere True (lit p @ r) s =
     (if startsCI p s then matchHere True r (drop (length p) s) else None)"
proof (induction p arbitrary: s)
  case Nil
  then show ?case by (simp add: lit_def startsCI_simps)
next
  case (Cons a p)
  then have a: "lowerChar a = a" and p: "list_all (\<lambda>c. lowerChar c = c) p" by simp_all
  have l: "lit (a # p) @ r = One (Chr a) # (lit p @ r)" by (simp add: lit_def)
  show ?case
  proof (cases s)
    case Nil
    then show ?thesis by (simp add: l startsCI_simps)
  next
    case (Cons c cs)
    then show ?thesis
      using Cons.IH [OF p, of cs] atomMatch_Chr_ci [OF a, of c]
      by (simp add: l startsCI_simps del: atomMatch.simps)
  qed
qed

lemma matchHere_untilGt:
  "matchHere ic (Star (NoneOf [Chr CHR ''>'']) # One (Chr CHR ''>'') # r) s =
     (case untilGt s of None \<Rightarrow> None | Some rest \<Rightarrow> matchHere ic r rest)"
proof (induction s)
  case Nil
  then show ?case by (simp add: untilGt_simps)
next
  case (Cons c cs)
  then show ?case
    by (simp add: untilGt_simps atomMatch_gt atomMatch_notGt del: atomMatch.simps
        split: option.splits)
qed

lemma matchHere_afterFirst:
  assumes p: "list_all (\<lambda>c. lowerChar c = c) p"
  shows "matchHere True (LazyStar (OneOf [Ws, NonWs]) # lit p) s = afterFirst p s"
proof -
  have m: "matchHere True (lit p) t = (if startsCI p t then Some (drop (length p) t) else None)"
    for t using matchHere_lit_ci [OF p, of "[]" t] by simp
  show ?thesis
  proof (induction s)
    case Nil
    then show ?case by (auto simp: m startsCI_def lower_def)
  next
    case (Cons c cs)
    then show ?case by (simp add: m)
  qed
qed

lemma matchHere_open_close:
  assumes o: "list_all (\<lambda>c. lowerChar c = c) po" and c: "list_all (\<lambda>c. lowerChar c = c) pc"
  shows "matchHere True (lit po @ [Star (NoneOf [Chr CHR ''>'']), One (Chr CHR ''>''),
     LazyStar (OneOf [Ws, NonWs])] @ lit pc) s =
     (if startsCI po s
      then (case untilGt (drop (length po) s) of
              None \<Rightarrow> None
            | Some inner \<Rightarrow> afterFirst pc inner)
      else None)"
proof -
  have "matchHere True ([Star (NoneOf [Chr CHR ''>'']), One (Chr CHR ''>''),
     LazyStar (OneOf [Ws, NonWs])] @ lit pc) t =
     (case untilGt t of None \<Rightarrow> None | Some inner \<Rightarrow> afterFirst pc inner)" for t
    using matchHere_untilGt [of True "LazyStar (OneOf [Ws, NonWs]) # lit pc" t]
    by (simp add: matchHere_afterFirst [OF c] cong: option.case_cong)
  then show ?thesis
    unfolding matchHere_lit_ci [OF o] by simp
qed

lemma matchHere_styleRe:
  assumes "\<not> startsCI ''<style'' s \<or> nameEnds (drop (length ''<style'') s)"
  shows "matchHere True styleRe s = block ''style'' s"
proof -
  have "list_all (\<lambda>c. lowerChar c = c) ''<style''" "list_all (\<lambda>c. lowerChar c = c) ''</style>''"
    by (simp_all add: lowerChar_def)
  from matchHere_open_close [OF this, of s] assms show ?thesis
    by (auto simp: styleRe_def block_def cong: option.case_cong)
qed

lemma matchHere_scriptRe:
  assumes "\<not> startsCI ''<script'' s \<or> nameEnds (drop (length ''<script'') s)"
  shows "matchHere True scriptRe s = block ''script'' s"
proof -
  have "list_all (\<lambda>c. lowerChar c = c) ''<script''" "list_all (\<lambda>c. lowerChar c = c) ''</script>''"
    by (simp_all add: lowerChar_def)
  from matchHere_open_close [OF this, of s] assms show ?thesis
    by (auto simp: scriptRe_def block_def cong: option.case_cong)
qed

lemma afterFirst_suffix: "afterFirst p s = Some r \<Longrightarrow> \<exists>pre. s = pre @ r"
proof (induction s)
  case Nil
  then show ?case by (simp split: if_splits)
next
  case (Cons c cs)
  show ?case
  proof (cases "startsCI p (c # cs)")
    case True
    then have "r = drop (length p) (c # cs)" using Cons.prems by simp
    then show ?thesis by (metis append_take_drop_id)
  next
    case False
    then obtain pre where "cs = pre @ r" using Cons by auto
    then show ?thesis by (metis append_Cons)
  qed
qed

lemma untilGt_suffix: "untilGt s = Some r \<Longrightarrow> \<exists>pre. s = pre @ r"
proof -
  assume "untilGt s = Some r"
  then obtain g where "dropWhile (\<lambda>c. c \<noteq> CHR ''>'') s = g # r"
    by (auto simp: untilGt_def split: list.splits)
  then have "s = (takeWhile (\<lambda>c. c \<noteq> CHR ''>'') s @ [g]) @ r"
    by (metis append.assoc append_Cons append_Nil takeWhile_dropWhile_id)
  then show ?thesis by blast
qed

lemma block_suffix: "block name s = Some r \<Longrightarrow> \<exists>pre. s = pre @ r"
proof -
  assume b: "block name s = Some r"
  then obtain inner where i: "untilGt (drop (length (''<'' @ name)) s) = Some inner"
    and r: "afterFirst (''</'' @ name @ ''>'') inner = Some r"
    by (auto simp: block_def split: if_splits option.splits)
  from untilGt_suffix [OF i] obtain p1 where "drop (length (''<'' @ name)) s = p1 @ inner" by blast
  moreover from afterFirst_suffix [OF r] obtain p2 where "inner = p2 @ r" by blast
  ultimately have "s = (take (length (''<'' @ name)) s @ p1 @ p2) @ r"
    by (metis append.assoc append_take_drop_id)
  then show ?thesis by blast
qed

lemma wellNamed_suffix: "wellNamed name (pre @ s) \<Longrightarrow> wellNamed name s"
  by (induction pre) simp_all

lemma replaceAll_removeBlocks:
  "(\<And>t. \<not> startsCI (''<'' @ name) t \<or> nameEnds (drop (length (''<'' @ name)) t) \<Longrightarrow>
      matchHere ic re t = block name t) \<Longrightarrow>
   wellNamed name s \<Longrightarrow> replaceAll ic re [] s = removeBlocks name s"
proof (induction name s rule: removeBlocks.induct)
  case (1 name)
  then show ?case by (simp add: block_def startsCI_def lower_def)
next
  case (2 name c cs)
  note m = "2.prems"(1)
  have here: "matchHere ic re (c # cs) = block name (c # cs)"
    using "2.prems"(2) by (intro m) simp
  have tl: "wellNamed name cs" using "2.prems"(2) by simp
  show ?case
  proof (cases "block name (c # cs)")
    case None
    then show ?thesis using "2.IH"(1) [OF None m tl] by (simp add: here)
  next
    case (Some rest)
    from block_suffix [OF Some] obtain pre where "c # cs = pre @ rest" by blast
    then have "wellNamed name rest" using "2.prems"(2) by (metis wellNamed_suffix)
    then show ?thesis
      using "2.IH"(2) [OF Some m] block_length [OF Some] Some by (simp add: here)
  qed
qed

lemma matchHere_tagRe: "matchHere False tagRe s = tag s"
proof (cases s)
  case Nil
  then show ?thesis by (simp add: tagRe_def tag_def)
next
  case (Cons lt t)
  show ?thesis
  proof (cases t)
    case Nil
    then show ?thesis using Cons by (simp add: tagRe_def tag_def)
  next
    case (Cons c cs)
    have "matchHere False [Star (NoneOf [Chr CHR ''>'']), One (Chr CHR ''>'')] cs = untilGt cs"
      by (simp add: matchHere_untilGt split: option.splits)
    then show ?thesis using Cons \<open>s = lt # t\<close>
      by (auto simp: tagRe_def tag_def)
  qed
qed

lemma replaceAll_replaceTags: "replaceAll False tagRe '' '' s = replaceTags s"
proof (induction s rule: replaceTags.induct)
  case 1
  then show ?case by (simp add: matchHere_tagRe tag_def)
next
  case (2 c cs)
  then show ?case
    using tag_length [of "c # cs"] by (simp add: matchHere_tagRe split: option.splits)
qed

lemma matchHere_StarWs: "matchHere ic [Star Ws] s = Some (dropWhile isSpace s)"
  by (induction s) simp_all

lemma matchHere_spacesRe:
  "matchHere False spacesRe s =
     (case s of [] \<Rightarrow> None | c # cs \<Rightarrow> if isSpace c then Some (dropWhile isSpace cs) else None)"
  by (cases s) (simp_all add: spacesRe_def matchHere_StarWs)

lemma replaceAll_collapseSpaces: "replaceAll False spacesRe '' '' s = collapseSpaces s"
proof (induction s rule: collapseSpaces.induct)
  case 1
  then show ?case by (simp add: matchHere_spacesRe)
next
  case (2 c cs)
  then show ?case
    using length_dropWhile_le [of whitespace cs]
    by (simp add: matchHere_spacesRe isSpace_whitespace less_Suc_eq_le)
qed

lemma replaceAll_collapseSpaces_Nil: "replaceAll False spacesRe '' '' [] = []"
  by (simp add: matchHere_spacesRe)

text \<open>
  Where no tag name merely begins with \<open>style\<close> or \<open>script\<close>, the visible text of the
  handler is the normalization of the specification.
\<close>

lemma visibleText_normalize:
  assumes "wellNamed ''style'' html" and "wellNamed ''script'' (removeBlocks ''style'' html)"
  shows "visibleText html = normalize html"
proof -
  have s: "replaceAll True styleRe [] html = removeBlocks ''style'' html"
    using matchHere_styleRe assms(1) by (intro replaceAll_removeBlocks) simp_all
  have "replaceAll True scriptRe [] (removeBlocks ''style'' html) =
      removeBlocks ''script'' (removeBlocks ''style'' html)"
    using matchHere_scriptRe assms(2) by (intro replaceAll_removeBlocks) simp_all
  then show ?thesis
    by (simp add: visibleText_def normalize_def s replaceAll_collapseSpaces
        replaceAll_replaceTags trim_strip toLowerCase_lower)
qed

text \<open>The document of the example below is one of these.\<close>

lemma example_wellNamed:
  "wellNamed ''style'' ''<script>ignored</script><style>ignored</style><p>Hello hello WORLD</p>'' \<and>
   wellNamed ''script''
     (removeBlocks ''style'' ''<script>ignored</script><style>ignored</style><p>Hello hello WORLD</p>'')"
  by code_simp

lemma styled_box_visibleText:
  "visibleText ''<styled-box>Buy now</styled-box><style>p{}</style>'' = []"
  by code_simp

lemma styled_box_normalize:
  "normalize ''<styled-box>Buy now</styled-box><style>p{}</style>'' = ''buy now''"
  by code_simp

text \<open>
  C1. On a document with a tag whose name only begins with \<open>style\<close>, the handler takes the
  tag for the opening of a style block and removes the text behind it up to the next
  \<^verbatim>\<open></style>\<close>: its visible text is empty, where the steps of the specification leave the
  words \<open>buy now\<close>.
\<close>

theorem styled_box_document:
  "visibleText ''<styled-box>Buy now</styled-box><style>p{}</style>'' = [] \<and>
   normalize ''<styled-box>Buy now</styled-box><style>p{}</style>'' = ''buy now''"
  by (simp only: styled_box_visibleText styled_box_normalize)

subsection \<open>The words\<close>

lemma splitFrom_nonempty: "splitFrom ic re acc s \<noteq> []"
  by (induction ic re acc s rule: splitFrom.induct) (auto split: option.splits)

lemma split_spacesRe_nonempty: "split False spacesRe s \<noteq> []"
  by (simp add: split_def splitFrom_nonempty matchHere_spacesRe)

lemma words_nonempty: "words html \<noteq> []"
  by (simp add: words_def split_spacesRe_nonempty)

lemma totalWords_analyze: "totalWords (analyze ax html) = length (words html)"
  by (simp add: analyze_def Let_def)

lemma visibleText_Nil: "visibleText [] = []"
  by (simp add: visibleText_def styleRe_def scriptRe_def tagRe_def spacesRe_def lit_def
      trim_def toLowerCase_def)

lemma words_Nil: "words [] = [[]]"
  by (simp add: words_def visibleText_Nil split_def matchHere_spacesRe)

text \<open>
  C10. For every document, the empty one too, splitting the visible text at white space
  gives at least one element: \<open>totalWords\<close> is at least 1, and the density, computed for
  whatever count with \<open>totalWords\<close> as the divisor, is never the \<open>Infinity\<close> of a division
  by zero, with no guard in the code.
\<close>

theorem totalWords_positive:
  "split False spacesRe (visibleText html) \<noteq> [] \<and>
   1 \<le> totalWords (analyze ax html) \<and>
   densityOf c (totalWords (analyze ax html)) \<noteq> Infinity"
proof -
  have w: "words html \<noteq> []" by (rule words_nonempty)
  then have t: "totalWords (analyze ax html) \<noteq> 0" by (simp add: totalWords_analyze)
  have "densityOf c (totalWords (analyze ax html)) \<noteq> Infinity"
    using t by (cases c) simp_all
  with w t show ?thesis by (simp add: words_def)
qed

text \<open>
  C2. On the empty document the handler returns \<open>totalWords = 1\<close>, and the visible text has
  no token: the total is not the number of tokens there. (\<open>totalWords_tokens\<close> below: it
  is the number of tokens whenever the visible text is not empty.)
\<close>

theorem totalWords_empty_document:
  "totalWords (analyze ax []) = 1 \<and> tokens (visibleText []) = []"
  by (simp add: totalWords_analyze words_Nil visibleText_Nil tokens_def)

lemma wordFrequency_Nil_word: "wordFrequency ax [[]] = []"
  by (simp add: wordFrequency_def countWord_def)

text \<open>
  C5. On the empty document the handler returns \<open>totalWords = 1\<close>, not 0, with an empty
  \<open>keywordDensity\<close>: no density is computed there, so nothing is divided, by zero or
  otherwise.
\<close>

theorem empty_document_result:
  "analyze ax [] = \<lparr>keywordDensity = [], totalWords = 1\<rparr>"
  by (simp add: analyze_def Let_def words_Nil wordFrequency_Nil_word entries_def sortEntries_def)

text \<open>
  On a visible text that is not empty, \<^verbatim>\<open>split\<close> gives the tokens.
\<close>

lemma tokensFrom_dropWhile: "tokensFrom [] (dropWhile whitespace s) = tokensFrom [] s"
  by (induction s) simp_all

lemma splitFrom_tokensFrom:
  "(acc \<noteq> [] \<or> (s \<noteq> [] \<and> \<not> isSpace (hd s))) \<Longrightarrow> (s = [] \<or> \<not> isSpace (last s)) \<Longrightarrow>
   splitFrom False spacesRe acc s = tokensFrom acc s"
proof (induction s arbitrary: acc rule: length_induct)
  case (1 s)
  have ih: "splitFrom False spacesRe a t = tokensFrom a t"
    if "length t < length s" "a \<noteq> [] \<or> (t \<noteq> [] \<and> \<not> isSpace (hd t))"
      "t = [] \<or> \<not> isSpace (last t)" for a t
    using "1.IH" that by blast
  show ?case
  proof (cases s)
    case Nil
    then show ?thesis using "1.prems" by simp
  next
    case (Cons c cs)
    show ?thesis
    proof (cases "isSpace c")
      case False
      have l: "cs = [] \<or> \<not> isSpace (last cs)" using "1.prems"(2) Cons by (auto split: if_splits)
      have "splitFrom False spacesRe (acc @ [c]) cs = tokensFrom (acc @ [c]) cs"
        using ih [of cs "acc @ [c]"] Cons l by simp
      then show ?thesis using Cons False by (simp add: matchHere_spacesRe isSpace_whitespace)
    next
      case True
      then have a: "acc \<noteq> []" using "1.prems"(1) Cons by simp
      let ?r = "dropWhile isSpace cs"
      have ne: "cs \<noteq> []" and lc: "\<not> isSpace (last cs)"
        using "1.prems"(2) Cons True by (auto split: if_splits)
      have "\<not> isSpace (last cs) \<Longrightarrow> cs \<noteq> [] \<Longrightarrow> dropWhile isSpace cs \<noteq> []"
        by (metis dropWhile_eq_Nil_conv last_in_set)
      then have r: "?r \<noteq> []" using ne lc by simp
      then have h: "\<not> isSpace (hd ?r)" by (rule hd_dropWhile)
      have lr: "last ?r = last cs" using r by (metis takeWhile_dropWhile_id last_appendR)
      have len: "length ?r < length s" using Cons length_dropWhile_le [of isSpace cs] by simp
      have "splitFrom False spacesRe [] ?r = tokensFrom [] ?r"
        using ih [of ?r "[]"] len r h lr lc by simp
      then show ?thesis
        using Cons True a length_dropWhile_le [of isSpace cs]
        by (simp add: matchHere_spacesRe tokensFrom_dropWhile isSpace_whitespace less_Suc_eq_le)
    qed
  qed
qed

lemma trim_ends:
  assumes "trim s \<noteq> []"
  shows "\<not> isSpace (hd (trim s))" "\<not> isSpace (last (trim s))"
proof -
  let ?a = "dropWhile isSpace s"
  let ?b = "dropWhile isSpace (rev ?a)"
  have b: "?b \<noteq> []" using assms by (simp add: trim_def)
  then have hb: "\<not> isSpace (hd ?b)" by (rule hd_dropWhile)
  have "last (trim s) = hd ?b" using b by (simp add: trim_def last_rev)
  then show "\<not> isSpace (last (trim s))" using hb by simp
  have "?a = [] \<Longrightarrow> ?b = []" by (metis dropWhile.simps(1) rev.simps(1))
  then have a: "?a \<noteq> []" using b by blast
  then have ha: "\<not> isSpace (hd ?a)" by (rule hd_dropWhile)
  have "rev ?a = takeWhile isSpace (rev ?a) @ ?b" by simp
  then have "?a = rev ?b @ rev (takeWhile isSpace (rev ?a))"
    by (metis rev_append rev_rev_ident)
  then have "hd ?a = hd (rev ?b)" using b by (metis hd_append2 rev_is_Nil_conv)
  then show "\<not> isSpace (hd (trim s))" using ha by (simp add: trim_def)
qed

lemma visibleText_ends:
  assumes "visibleText html \<noteq> []"
  shows "\<not> isSpace (hd (visibleText html))" "\<not> isSpace (last (visibleText html))"
proof -
  obtain t where v: "visibleText html = toLowerCase (trim t)"
    by (simp add: visibleText_def)
  then have n: "trim t \<noteq> []" using assms by (auto simp: toLowerCase_def)
  show "\<not> isSpace (hd (visibleText html))"
    using trim_ends(1) [OF n] n by (simp add: v toLowerCase_def hd_map isSpace_lowerChar)
  show "\<not> isSpace (last (visibleText html))"
    using trim_ends(2) [OF n] n by (simp add: v toLowerCase_def last_map isSpace_lowerChar)
qed

lemma totalWords_tokens:
  "visibleText html \<noteq> [] \<Longrightarrow>
   totalWords (analyze ax html) = length (tokens (visibleText html))"
  using visibleText_ends [of html]
  by (simp add: totalWords_analyze words_def split_def tokens_def splitFrom_tokensFrom)

subsection \<open>The entries of a result\<close>

lemma lowerChar_not_upper: "\<not> upperAscii (lowerChar c)"
  unfolding upperAscii_def of_char_lowerChar by auto

lemma matchHere_chars: "matchHere ic re s = Some rest \<Longrightarrow> set rest \<subseteq> set s"
  by (induction ic re s arbitrary: rest rule: matchHere.induct)
    (auto split: if_splits option.splits)

lemma splitFrom_chars:
  "w \<in> set (splitFrom ic re acc s) \<Longrightarrow> set w \<subseteq> set acc \<union> set s"
proof (induction ic re acc s arbitrary: w rule: splitFrom.induct)
  case (1 ic re acc)
  then show ?case by simp
next
  case (2 ic re acc c cs)
  show ?case
  proof (cases "matchHere ic re (c # cs)")
    case None
    then show ?thesis using "2.IH"(1) [OF None, of w] "2.prems" by auto
  next
    case (Some rest)
    note r = matchHere_chars [OF Some]
    show ?thesis
    proof (cases "length rest < length (c # cs)")
      case True
      then show ?thesis
        using "2.IH"(2) [OF Some True, of w] "2.prems" Some r by auto
    next
      case False
      show ?thesis
      proof (cases "acc = []")
        case True
        then show ?thesis
          using "2.IH"(3) [OF Some False True, of w] "2.prems" Some False by auto
      next
        case ne: False
        then show ?thesis
          using "2.IH"(4) [OF Some False ne, of w] "2.prems" Some False by auto
      qed
    qed
  qed
qed

lemma words_chars: "w \<in> set (words html) \<Longrightarrow> c \<in> set w \<Longrightarrow> \<not> upperAscii c"
proof -
  assume w: "w \<in> set (words html)" and c: "c \<in> set w"
  obtain t where v: "visibleText html = map lowerChar t"
    by (simp add: visibleText_def toLowerCase_def)
  have "set w \<subseteq> set (visibleText html)"
    using w splitFrom_chars [of w False spacesRe "[]" "visibleText html"]
    by (auto simp: words_def split_def split: if_splits option.splits)
  then have "c \<in> lowerChar ` set t" using c v by auto
  then show ?thesis using lowerChar_not_upper by auto
qed

lemma words_not_capitalised:
  "w \<in> set (words html) \<Longrightarrow> list_ex upperAscii name \<Longrightarrow> w \<noteq> name"
  using words_chars [of w html] by (auto simp: list_ex_iff)

lemma objectPrototype_word:
  assumes "w \<in> set (words html)" and "w \<noteq> ''constructor''"
  shows "objectPrototype ax w = (if ax \<and> w = ''__proto__'' then PrototypeObject else Undefined)"
proof -
  have "w \<noteq> name" if "list_ex upperAscii name" for name
    using words_not_capitalised [OF assms(1) that] .
  then have "w \<notin> set [''hasOwnProperty'', ''isPrototypeOf'', ''propertyIsEnumerable'',
        ''toLocaleString'', ''toString'', ''valueOf'', ''__defineGetter__'',
        ''__defineSetter__'', ''__lookupGetter__'', ''__lookupSetter__'']"
    by (auto simp: upperAscii_def)
  then show ?thesis using assms(2) by (simp add: objectPrototype_def)
qed

lemma countedValue_mono: "countedValue m v \<Longrightarrow> m \<le> m' \<Longrightarrow> countedValue m' v"
  by (cases v) auto

lemma counted_mono: "counted m freq \<Longrightarrow> m \<le> m' \<Longrightarrow> counted m' freq"
  by (auto simp: counted_def list_all_iff dest: countedValue_mono)

lemma countedD:
  assumes "counted m freq" and "(k, v) \<in> set freq"
  obtains n where "3 < length k" "v = Num n" "1 \<le> n" "n \<le> m"
proof -
  have "3 < length k" "countedValue m v" using assms by (auto simp: counted_def list_all_iff)
  then show ?thesis using that by (cases v) auto
qed

lemma set_assign: "set (assign k v ps) \<subseteq> insert (k, v) (set ps)"
  by (induction k v ps rule: assign.induct) auto

lemma counted_assign:
  "counted m freq \<Longrightarrow> 3 < length k \<Longrightarrow> 1 \<le> n \<Longrightarrow> n \<le> m \<Longrightarrow> counted m (assign k (Num n) freq)"
  using set_assign [of k "Num n" freq] by (auto simp: counted_def list_all_iff)

lemma counted_countWord:
  assumes c: "counted m freq" and w: "w \<in> set (words html)" and n: "w \<noteq> ''constructor''"
  shows "counted (Suc m) (countWord ax freq w)"
proof (cases "3 < length w")
  case False
  then show ?thesis using c by (simp add: countWord_def counted_mono)
next
  case long: True
  note c' = counted_mono [OF c, of "Suc m"]
  show ?thesis
  proof (cases "map_of freq w")
    case None
    then have g: "getProperty ax freq w = (if ax \<and> w = ''__proto__'' then PrototypeObject else Undefined)"
      by (simp add: getProperty_def objectPrototype_word [OF w n])
    show ?thesis
      using long c' counted_assign [of "Suc m" freq w 1]
      by (simp add: countWord_def g setProperty_def)
  next
    case (Some v)
    then have "(w, v) \<in> set freq" by (rule map_of_SomeD)
    with c obtain k where "3 < length w" and k: "v = Num k" "1 \<le> k" "k \<le> m"
      by (rule countedD)
    obtain k' where k': "increment v = Num k'" "1 \<le> k'" "k' \<le> Suc m"
      using k by simp
    show ?thesis
      using long Some k' c' counted_assign [of "Suc m" freq w k']
      by (simp add: countWord_def getProperty_def setProperty_def)
  qed
qed

lemma counted_foldl:
  "counted m freq \<Longrightarrow> set ws \<subseteq> set (words html) \<Longrightarrow> ''constructor'' \<notin> set ws \<Longrightarrow>
   counted (m + length ws) (foldl (countWord ax) freq ws)"
proof (induction ws arbitrary: m freq)
  case Nil
  then show ?case by simp
next
  case (Cons w ws)
  have "counted (Suc m) (countWord ax freq w)"
    using counted_countWord [OF Cons.prems(1), of w html ax] Cons.prems(2,3) by auto
  from Cons.IH [OF this] Cons.prems(2,3) show ?case by simp
qed

lemma counted_wordFrequency:
  "''constructor'' \<notin> set (words html) \<Longrightarrow>
   counted (length (words html)) (wordFrequency ax (words html))"
  using counted_foldl [of 0 "[]" "words html" html ax]
  by (simp add: wordFrequency_def counted_def)

lemma set_entries: "set (entries obj) = set obj"
  by (auto simp: entries_def)

lemma set_insertBy: "set (insertBy a bs) = insert a (set bs)"
  by (induction bs) auto

lemma set_foldr_insertBy: "set (foldr insertBy xs []) = set xs"
  by (induction xs) (simp_all add: set_insertBy)

lemma set_binaryInsert: "set (binaryInsert placed pivot) = insert pivot (set placed)"
proof -
  have "set (take i placed) \<union> set (drop i placed) = set placed" for i
    using set_append [of "take i placed" "drop i placed"] by simp
  then show ?thesis by (auto simp: binaryInsert_def Let_def)
qed

lemma set_foldl_binaryInsert: "set (foldl binaryInsert run xs) = set run \<union> set xs"
  by (induction xs arbitrary: run) (auto simp: set_binaryInsert)

lemma set_timSortShort: "set (timSortShort xs) = set xs"
proof (cases xs)
  case Nil
  then show ?thesis by (simp add: timSortShort_def)
next
  case (Cons a ys)
  show ?thesis
  proof (cases ys)
    case Nil
    then show ?thesis using Cons by (simp add: timSortShort_def)
  next
    case (Cons b rest)
    have "set (take n xs) \<union> set (drop n xs) = set xs" for n
      using set_append [of "take n xs" "drop n xs"] by simp
    then have "set (foldl binaryInsert (if d then rev (take n xs) else take n xs) (drop n xs)) = set xs"
      for d n
      by (simp add: set_foldl_binaryInsert)
    then show ?thesis
      unfolding timSortShort_def \<open>xs = a # ys\<close> Cons list.case Let_def by blast
  qed
qed

lemma set_sortEntries: "set (sortEntries xs) = set xs"
  by (simp add: sortEntries_def set_foldr_insertBy set_timSortShort)

lemma length_keywordDensity: "length (keywordDensity (analyze ax html)) \<le> 20"
  by (simp add: analyze_def Let_def)

lemma keywordDensity_entries:
  assumes "e \<in> set (keywordDensity (analyze ax html))"
  obtains k v where "(k, v) \<in> set (wordFrequency ax (words html))"
    and "e = \<lparr>keyword = k, count = v, density = densityOf v (length (words html))\<rparr>"
proof -
  have "e \<in> set (map (\<lambda>(k, c). \<lparr>keyword = k, count = c, density = densityOf c (length (words html))\<rparr>)
      (entries (wordFrequency ax (words html))))"
  proof -
    have "e \<in> set (take 20 (sortEntries (map (\<lambda>(k, c). \<lparr>keyword = k, count = c,
        density = densityOf c (length (words html))\<rparr>) (entries (wordFrequency ax (words html))))))"
      using assms by (simp add: analyze_def Let_def)
    then have "e \<in> set (sortEntries (map (\<lambda>(k, c). \<lparr>keyword = k, count = c,
        density = densityOf c (length (words html))\<rparr>) (entries (wordFrequency ax (words html)))))"
      by (rule in_set_takeD)
    then show ?thesis by (simp only: set_sortEntries)
  qed
  then show ?thesis using that by (auto simp: set_entries)
qed

lemma halfEven_nonneg: "0 \<le> a \<Longrightarrow> 0 < b \<Longrightarrow> 0 \<le> halfEven a b"
  by (simp add: halfEven_def Let_def pos_imp_zdiv_nonneg_iff)

lemma halfEven_le:
  assumes "0 < b" and "a \<le> N * b"
  shows "halfEven a b \<le> N"
proof (cases "a = N * b")
  case True
  then show ?thesis using assms(1) by (simp add: halfEven_def Let_def)
next
  case False
  then have "a < N * b" using assms(2) by simp
  moreover have "a div b * b + a mod b = a" by simp
  moreover have "0 \<le> a mod b" using assms(1) by simp
  ultimately have "a div b * b < N * b" by linarith
  then have "a div b < N" using assms(1) by (simp add: mult_less_cancel_right)
  then show ?thesis by (simp add: halfEven_def Let_def)
qed

lemma exponent_less:
  assumes a: "0 < a" and b: "0 < b" and j: "a < b * 2 ^ j"
  shows "exponent a b < int j"
proof -
  let ?k = "bitlen a - bitlen b"
  have la: "2 ^ nat (bitlen a - 1) \<le> a" using bitlen_bounds [OF a] by simp
  have lb: "b < 2 ^ nat (bitlen b)" using bitlen_bounds [OF b] by simp
  have k: "?k \<le> int j"
  proof (rule ccontr)
    assume "\<not> ?k \<le> int j"
    then have "nat (bitlen b) + j \<le> nat (bitlen a - 1)"
      using bitlen_nonneg [of b] by linarith
    then have "(2::int) ^ (nat (bitlen b) + j) \<le> 2 ^ nat (bitlen a - 1)"
      by (simp add: power_increasing)
    moreover have "b * 2 ^ j < 2 ^ (nat (bitlen b) + j)"
      using lb by (simp add: power_add)
    ultimately show False using la j by linarith
  qed
  show ?thesis
  proof (cases "?k = int j")
    case True
    then have "\<not> b * 2 ^ nat ?k \<le> a" using j by simp
    then show ?thesis using True by (simp add: exponent_def Let_def)
  next
    case False
    then have "?k < int j" using k by simp
    then show ?thesis by (simp add: exponent_def Let_def)
  qed
qed

lemma roundDouble_le:
  assumes a: "0 < a" and b: "0 < b" and c: "0 < c" and le: "a \<le> c * b"
    and j: "c < 2 ^ j" and jj: "j \<le> 52"
  obtains m p where "roundDouble a b = (m, p)" "p < 0" "0 \<le> m" "m \<le> c * 2 ^ nat (- p)"
proof -
  have "c * b < 2 ^ j * b" using j b by (rule mult_strict_right_mono)
  then have "a < b * 2 ^ j" using le by (simp add: mult.commute)
  then have e: "exponent a b < int j" by (rule exponent_less [OF a b])
  define p where "p = max (exponent a b) (- 1022) - 52"
  have p: "p < 0" using e jj by (simp add: p_def)
  define m where "m = halfEven (a * 2 ^ nat (- p)) b"
  have r: "roundDouble a b = (m, p)"
    using a p by (simp add: roundDouble_def Let_def p_def [symmetric] m_def)
  have "a * 2 ^ nat (- p) \<le> (c * 2 ^ nat (- p)) * b" using le by simp
  then have "m \<le> c * 2 ^ nat (- p)" unfolding m_def by (rule halfEven_le [OF b])
  moreover have "0 \<le> m" unfolding m_def using a b by (simp add: halfEven_nonneg)
  ultimately show ?thesis using that r p by blast
qed

lemma densityOf_range:
  assumes "1 \<le> n" and "n \<le> tw"
  shows "densityInRange (densityOf (Num n) tw)"
proof -
  have "int n \<le> 1 * int tw" "0 < int n" "0 < int tw" using assms by simp_all
  from roundDouble_le [OF this(2,3) _ this(1), of 1]
  obtain m p where r: "roundDouble (int n) (int tw) = (m, p)" and p: "p < 0"
    and m: "0 \<le> m" "m \<le> 2 ^ nat (- p)" by auto
  have tw: "tw \<noteq> 0" using assms by simp
  show ?thesis
  proof (cases "m = 0")
    case True
    then show ?thesis using r p tw by (simp add: roundDouble_def)
  next
    case False
    then have "0 < m * 100" using m by simp
    moreover have "(0::int) < 2 ^ nat (- p)" by simp
    moreover have "m * 100 \<le> 100 * 2 ^ nat (- p)" using m by simp
    ultimately obtain m' p' where r': "roundDouble (m * 100) (2 ^ nat (- p)) = (m', p')"
      and p': "p' < 0" and m': "0 \<le> m'" "m' \<le> 100 * 2 ^ nat (- p')"
      using roundDouble_le [of "m * 100" "2 ^ nat (- p)" 100 7] by auto
    have "real_of_int m' \<le> 100 * 2 ^ nat (- p')"
      using m'(2) by (metis of_int_le_iff of_int_mult of_int_numeral of_int_power)
    then have "real_of_int m' / 2 ^ nat (- p') \<le> 100" by (simp add: divide_le_eq)
    moreover have "0 \<le> real_of_int m' / 2 ^ nat (- p')" using m'(1) by simp
    ultimately show ?thesis using r r' p p' tw by simp
  qed
qed

lemma keywordDensity_invariant:
  assumes "''constructor'' \<notin> set (words html)"
    and "e \<in> set (keywordDensity (analyze ax html))"
  shows "3 < length (keyword e) \<and> countAtLeast1 (count e) \<and> densityInRange (density e)"
proof -
  from assms(2) obtain k v where kv: "(k, v) \<in> set (wordFrequency ax (words html))"
    and e: "e = \<lparr>keyword = k, count = v, density = densityOf v (length (words html))\<rparr>"
    by (rule keywordDensity_entries)
  from counted_wordFrequency [OF assms(1), of ax] kv
  obtain n where "3 < length k" "v = Num n" "1 \<le> n" "n \<le> length (words html)"
    by (rule countedD)
  then show ?thesis using densityOf_range [of n "length (words html)"] by (simp add: e)
qed

lemma compareFn_numeric:
  "numeric a \<Longrightarrow> numeric b \<Longrightarrow> (compareFn a b \<le> 0) = countGe (count a) (count b)"
  by (auto simp: numeric_def split: jsvalue.splits)

lemma countGe_linear:
  "numeric a \<Longrightarrow> numeric b \<Longrightarrow> countGe (count a) (count b) \<or> countGe (count b) (count a)"
  by (auto simp: numeric_def split: jsvalue.splits)

lemma countGe_trans: "countGe u v \<Longrightarrow> countGe v w \<Longrightarrow> countGe u w"
  by (cases u; cases v; cases w) auto

lemma sorted_insertBy:
  assumes "numeric a" and "list_all numeric bs"
    and "sorted_wrt (\<lambda>x y. countGe (count x) (count y)) bs"
  shows "sorted_wrt (\<lambda>x y. countGe (count x) (count y)) (insertBy a bs)"
  using assms
proof (induction bs)
  case Nil
  then show ?case by simp
next
  case (Cons b bs)
  show ?case
  proof (cases "compareFn a b \<le> 0")
    case True
    then have "countGe (count a) (count b)"
      using compareFn_numeric [of a b] Cons.prems by simp
    then show ?thesis
      using True Cons.prems countGe_trans by (auto simp del: compareFn.simps)
  next
    case False
    then have "countGe (count b) (count a)"
      using compareFn_numeric [of a b] countGe_linear [of a b] Cons.prems by auto
    then show ?thesis
      using False Cons by (auto simp: set_insertBy simp del: compareFn.simps)
  qed
qed

lemma numeric_insertBy: "list_all numeric (insertBy a bs) = (numeric a \<and> list_all numeric bs)"
  by (auto simp: list_all_iff set_insertBy)

lemma sorted_foldr_insertBy:
  "list_all numeric xs \<Longrightarrow>
   sorted_wrt (\<lambda>x y. countGe (count x) (count y)) (foldr insertBy xs [])"
proof (induction xs)
  case Nil
  then show ?case by simp
next
  case (Cons a xs)
  have "list_all numeric (foldr insertBy xs [])"
    using Cons.prems by (simp add: list_all_iff set_foldr_insertBy)
  then show ?case
    using Cons sorted_insertBy [of a "foldr insertBy xs []"] by simp
qed

lemma sorted_sortEntries:
  "list_all numeric xs \<Longrightarrow> sorted_wrt (\<lambda>x y. countGe (count x) (count y)) (sortEntries xs)"
  by (simp add: sortEntries_def sorted_foldr_insertBy)

lemma keywordDensity_sorted:
  assumes "''constructor'' \<notin> set (words html)"
  shows "sorted_wrt (\<lambda>x y. countGe (count x) (count y)) (keywordDensity (analyze ax html))"
proof -
  let ?xs = "map (\<lambda>(k, c). \<lparr>keyword = k, count = c, density = densityOf c (length (words html))\<rparr>)
      (entries (wordFrequency ax (words html)))"
  have "list_all numeric ?xs"
  proof -
    have "numeric \<lparr>keyword = k, count = v, density = d\<rparr>"
      if "(k, v) \<in> set (wordFrequency ax (words html))" for k v d
      using counted_wordFrequency [OF assms, of ax] that
      by (rule countedD) (simp add: numeric_def)
    then show ?thesis by (auto simp: list_all_iff set_entries)
  qed
  then have "sorted_wrt (\<lambda>x y. countGe (count x) (count y)) (sortEntries ?xs)"
    by (rule sorted_sortEntries)
  then have "sorted_wrt (\<lambda>x y. countGe (count x) (count y)) (take 20 (sortEntries ?xs))"
    by (rule sorted_wrt_take)
  then show ?thesis by (simp add: analyze_def Let_def)
qed

lemma keywordDensity_descending:
  assumes "''constructor'' \<notin> set (words html)"
    and "i < j" and "j < length (keywordDensity (analyze ax html))"
  shows "countGe (count (keywordDensity (analyze ax html) ! i))
     (count (keywordDensity (analyze ax html) ! j))"
  using keywordDensity_sorted [OF assms(1), of ax] assms(2,3)
  by (simp add: sorted_wrt_iff_nth_less)

lemma stored_increment: "stored v \<Longrightarrow> stored (increment v)"
proof (cases v)
  case (Text s)
  assume "stored v"
  then have t: "take 9 s = ''function ''" using Text by simp
  then have "length (take 9 s) = 9" by simp
  then have "9 \<le> length s" by simp
  then show ?thesis using Text t by auto
qed auto

lemma stored_inherited:
  "\<not> (ax \<and> key = ''__proto__'') \<Longrightarrow> stored (increment (objectPrototype ax key))"
  by (simp add: objectPrototype_def functionText_def)

lemma stored_countWord:
  assumes "list_all (\<lambda>(k, v). stored v) freq"
  shows "list_all (\<lambda>(k, v). stored v) (countWord ax freq w)"
proof (cases "3 < length w \<and> \<not> (ax \<and> w = ''__proto__'')")
  case False
  then show ?thesis using assms by (auto simp: countWord_def setProperty_def)
next
  case True
  have "stored (increment (getProperty ax freq w))"
  proof (cases "map_of freq w")
    case None
    then show ?thesis using True by (simp add: getProperty_def stored_inherited)
  next
    case (Some v)
    then have "(w, v) \<in> set freq" by (rule map_of_SomeD)
    then have "stored v" using assms by (auto simp: list_all_iff)
    then show ?thesis using Some by (simp add: getProperty_def stored_increment)
  qed
  then show ?thesis
    using True assms set_assign [of w "increment (getProperty ax freq w)" freq]
    by (auto simp: countWord_def setProperty_def list_all_iff)
qed

lemma stored_foldl:
  "list_all (\<lambda>(k, v). stored v) freq \<Longrightarrow>
   list_all (\<lambda>(k, v). stored v) (foldl (countWord ax) freq ws)"
  by (induction ws arbitrary: freq) (simp_all add: stored_countWord)

lemma wordFrequency_text:
  "(k, Text s) \<in> set (wordFrequency ax ws) \<Longrightarrow> take 9 s = ''function ''"
  using stored_foldl [of "[]" ax ws] by (auto simp: wordFrequency_def list_all_iff)

lemma countGe_Text: "\<not> countGe (Text s) v \<and> \<not> countGe v (Text s)"
  by (cases v) simp_all

subsection \<open>Documents\<close>

lemma words_example:
  "words ''<script>ignored</script><style>ignored</style><p>Hello hello WORLD</p>'' =
     [''hello'', ''hello'', ''world'']"
  by code_simp

lemma words_constructor: "words ''<p>constructor</p>'' = [''constructor'']"
  by code_simp

lemma words_constructor_hello: "words ''<p>constructor hello</p>'' = [''constructor'', ''hello'']"
  by code_simp

text \<open>
  \<^verbatim>\<open>(2 / 3) * 100\<close>, \<^verbatim>\<open>(1 / 3) * 100\<close> and \<^verbatim>\<open>(1 / 2) * 100\<close> in doubles: the first is
  \<open>2345624805922133 \<cdot> 2\<^sup>-\<^sup>4\<^sup>5\<close>, which is printed \<^verbatim>\<open>66.66666666666666\<close>, and the second
  \<open>2345624805922133 \<cdot> 2\<^sup>-\<^sup>4\<^sup>6\<close>, printed \<^verbatim>\<open>33.33333333333333\<close>.
\<close>

lemma timesDouble_2_3: "timesDouble (roundDouble 2 3) 100 = (4691249611844266, - 46)"
  by code_simp

lemma timesDouble_1_3: "timesDouble (roundDouble 1 3) 100 = (4691249611844266, - 47)"
  by code_simp

lemma timesDouble_1_2: "timesDouble (roundDouble 1 2) 100 = (7036874417766400, - 47)"
  by code_simp

lemma densityOf_2_3: "densityOf (Num 2) 3 = Finite (2345624805922133 / 35184372088832)"
  by (simp add: timesDouble_2_3)

lemma densityOf_1_3: "densityOf (Num 1) 3 = Finite (2345624805922133 / 70368744177664)"
  by (simp add: timesDouble_1_3)

lemma densityOf_1_2: "densityOf (Num 1) 2 = Finite 50"
  by (simp add: timesDouble_1_2)

lemma densityOf_2_3_two_decimals:
  "\<exists>d. densityOf (Num 2) 3 = Finite d \<and> d \<noteq> 6667 / 100 \<and> d \<noteq> 200 / 3 \<and>
     \<bar>d - 6667 / 100\<bar> < 5 / 1000"
  by (rule exI [of _ "2345624805922133 / 35184372088832"]) (simp add: timesDouble_2_3)

lemmas analyze_simps = analyze_def Let_def wordFrequency_def countWord_def getProperty_def
  setProperty_def objectPrototype_def entries_def isArrayIndex_def isDigit_def
  sortEntries_def numeric_def timSortShort_def functionText_def
  timesDouble_2_3 timesDouble_1_3 timesDouble_1_2

text \<open>
  C6, amended. On the document of the specification the handler returns \<open>totalWords = 3\<close>
  and two entries: \<open>hello\<close> with count 2 and the density \<open>2345624805922133 \<cdot> 2\<^sup>-\<^sup>4\<^sup>5\<close>, the
  double that is printed \<^verbatim>\<open>66.66666666666666\<close>, then \<open>world\<close> with count 1 and the density
  \<open>2345624805922133 \<cdot> 2\<^sup>-\<^sup>4\<^sup>6\<close>, printed \<^verbatim>\<open>33.33333333333333\<close>. The handler rounds nowhere:
  the density of \<open>hello\<close> is 66.67 to two decimals (\<open>densityOf_2_3_two_decimals\<close>), and it
  is neither the number 66.67 nor the quotient \<open>200 / 3\<close>.
\<close>

theorem example_document:
  "analyze ax ''<script>ignored</script><style>ignored</style><p>Hello hello WORLD</p>'' =
     \<lparr>keywordDensity =
        [\<lparr>keyword = ''hello'', count = Num 2,
          density = Finite (2345624805922133 / 35184372088832)\<rparr>,
         \<lparr>keyword = ''world'', count = Num 1,
          density = Finite (2345624805922133 / 70368744177664)\<rparr>],
      totalWords = 3\<rparr>"
  by (simp add: analyze_simps words_example)

text \<open>
  C6, as stated, fails: no entry of the result is \<open>hello\<close> with count 2 and density 66.67.
\<close>

theorem example_document_density_not_rounded:
  "\<lparr>keyword = ''hello'', count = Num 2, density = Finite (6667 / 100)\<rparr> \<notin>
     set (keywordDensity
       (analyze False ''<script>ignored</script><style>ignored</style><p>Hello hello WORLD</p>''))"
  by (simp add: analyze_simps words_example)

text \<open>
  C3. On a document whose only word is \<open>constructor\<close> the one entry has a text for its
  count and \<open>NaN\<close> for its density: the first read of \<^verbatim>\<open>wordFrequency[word]\<close> finds the
  function that every object inherits under this name. (\<open>keywordDensity_invariant\<close> above:
  without this word the entries are as the claim says.)
\<close>

theorem constructor_document:
  "keywordDensity (analyze ax ''<p>constructor</p>'') =
     [\<lparr>keyword = ''constructor'', count = Text ''function Object() { [native code] }1'',
       density = NaN\<rparr>]"
  by (simp add: analyze_simps words_constructor)

text \<open>
  C4. On a document with the words \<open>constructor\<close> and \<open>hello\<close> the two entries have a
  text and the number 1 for their counts, which no order of the two puts in the order
  \<open>\<ge>\<close>. (\<open>length_keywordDensity\<close> and \<open>keywordDensity_descending\<close> above: there are
  never more than 20 entries, and without this word they are sorted.)
\<close>

theorem constructor_hello_document:
  "keywordDensity (analyze ax ''<p>constructor hello</p>'') =
     [\<lparr>keyword = ''constructor'', count = Text ''function Object() { [native code] }1'',
       density = NaN\<rparr>,
      \<lparr>keyword = ''hello'', count = Num 1, density = Finite 50\<rparr>]"
  by (simp add: analyze_simps words_constructor_hello)

text \<open>
  With a text among more than two counts the order is the one the binary insertion leaves:
  the entries with a number behind the text are placed by comparisons with the entries
  before it, and the text, which compares as equal to everything, stays behind them.
\<close>

lemma words_text_count:
  "words ''<p>aaaa bbbb bbbb constructor dddd dddd dddd</p>'' =
     [''aaaa'', ''bbbb'', ''bbbb'', ''constructor'', ''dddd'', ''dddd'', ''dddd'']"
  by code_simp

lemma text_count_document:
  "map keyword
     (keywordDensity (analyze ax ''<p>aaaa bbbb bbbb constructor dddd dddd dddd</p>'')) =
     [''dddd'', ''bbbb'', ''aaaa'', ''constructor'']"
  by (simp add: analyze_simps words_text_count binaryInsert_def binarySearch.simps)

subsection \<open>Requests\<close>

lemma stringifyError_required:
  \<open>stringifyError ''URL is required'' = ''{"error":"URL is required"}''\<close>
  by (simp add: stringifyError_def quote_def quoteChar_def)

text \<open>
  C7, amended. Of a request that is no preflight: where the body is JSON other than
  \<^verbatim>\<open>null\<close> and has no \<open>url\<close>, or the empty text (or another falsy value) for it, the
  handler fails with the message \<open>URL is required\<close>, and the response has status 500 and
  the body \<^verbatim>\<open>{"error":"URL is required"}\<close>. Where there is no body to read a \<open>url\<close> from the
  response has status 500 as well, with another message: the one \<^verbatim>\<open>req.json()\<close> rejects
  with for a body that is absent or is no JSON, the one of the \<^verbatim>\<open>TypeError\<close> of the
  destructuring for the body \<^verbatim>\<open>null\<close>.
\<close>

theorem url_required:
  assumes "method' req \<noteq> ''OPTIONS''"
  shows \<open>(json req = Inr parsed \<and> urlOf rt parsed = Inr url \<and> \<not> truthy url \<longrightarrow>
      tryBlock rt req = Inl ''URL is required'' \<and>
      handler rt req =
        \<lparr>status = 500,
         headers = assign ''Content-Type'' ''application/json'' (corsHeaders rt),
         body = Raw ''{"error":"URL is required"}''\<rparr>) \<and>
    (json req = Inl message \<longrightarrow>
      handler rt req =
        \<lparr>status = 500,
         headers = assign ''Content-Type'' ''application/json'' (corsHeaders rt),
         body = Raw (stringifyError message)\<rparr>) \<and>
    (json req = Inr JNull \<longrightarrow>
      handler rt req =
        \<lparr>status = 500,
         headers = assign ''Content-Type'' ''application/json'' (corsHeaders rt),
         body = Raw (stringifyError (destructureNull rt))\<rparr>)\<close>
  using assms by (simp add: handler_def tryBlock_def stringifyError_required)

theorem url_required_witness:
  \<open>handler \<lparr>corsHeaders = [(''Access-Control-Allow-Origin'', ''*'')],
      fetch = (\<lambda>u. Rejected ''connection refused''), annexB = False,
      destructureNull = ''Cannot destructure''\<rparr>
     \<lparr>method' = ''POST'', json = Inr (JObject [])\<rparr> =
   \<lparr>status = 500,
    headers = [(''Access-Control-Allow-Origin'', ''*''), (''Content-Type'', ''application/json'')],
    body = Raw ''{"error":"URL is required"}''\<rparr> \<and>
   handler \<lparr>corsHeaders = [(''Access-Control-Allow-Origin'', ''*'')],
      fetch = (\<lambda>u. Rejected ''connection refused''), annexB = False,
      destructureNull = ''Cannot destructure''\<rparr>
     \<lparr>method' = ''POST'', json = Inr (JObject [(''url'', JString [])])\<rparr> =
   \<lparr>status = 500,
    headers = [(''Access-Control-Allow-Origin'', ''*''), (''Content-Type'', ''application/json'')],
    body = Raw ''{"error":"URL is required"}''\<rparr> \<and>
   handler \<lparr>corsHeaders = [(''Access-Control-Allow-Origin'', ''*'')],
      fetch = (\<lambda>u. Rejected ''connection refused''), annexB = False,
      destructureNull = ''Cannot destructure''\<rparr>
     \<lparr>method' = ''POST'', json = Inl ''Unexpected end of JSON input''\<rparr> =
   \<lparr>status = 500,
    headers = [(''Access-Control-Allow-Origin'', ''*''), (''Content-Type'', ''application/json'')],
    body = Raw ''{"error":"Unexpected end of JSON input"}''\<rparr> \<and>
   handler \<lparr>corsHeaders = [(''Access-Control-Allow-Origin'', ''*'')],
      fetch = (\<lambda>u. Rejected ''connection refused''), annexB = False,
      destructureNull = ''Cannot destructure''\<rparr>
     \<lparr>method' = ''POST'', json = Inr JNull\<rparr> =
   \<lparr>status = 500,
    headers = [(''Access-Control-Allow-Origin'', ''*''), (''Content-Type'', ''application/json'')],
    body = Raw ''{"error":"Cannot destructure"}''\<rparr>\<close>
  using url_required [of "\<lparr>method' = ''POST'', json = Inr (JObject [])\<rparr>" "JObject []"
      "\<lparr>corsHeaders = [(''Access-Control-Allow-Origin'', ''*'')],
      fetch = (\<lambda>u. Rejected ''connection refused''), annexB = False,
      destructureNull = ''Cannot destructure''\<rparr>" None]
    url_required [of "\<lparr>method' = ''POST'', json = Inr (JObject [(''url'', JString [])])\<rparr>"
      "JObject [(''url'', JString [])]"
      "\<lparr>corsHeaders = [(''Access-Control-Allow-Origin'', ''*'')],
      fetch = (\<lambda>u. Rejected ''connection refused''), annexB = False,
      destructureNull = ''Cannot destructure''\<rparr>" "Some (JString [])"]
    url_required [of "\<lparr>method' = ''POST'', json = Inl ''Unexpected end of JSON input''\<rparr>" _
      "\<lparr>corsHeaders = [(''Access-Control-Allow-Origin'', ''*'')],
      fetch = (\<lambda>u. Rejected ''connection refused''), annexB = False,
      destructureNull = ''Cannot destructure''\<rparr>" _ "''Unexpected end of JSON input''"]
    url_required [of "\<lparr>method' = ''POST'', json = Inr JNull\<rparr>" _
      "\<lparr>corsHeaders = [(''Access-Control-Allow-Origin'', ''*'')],
      fetch = (\<lambda>u. Rejected ''connection refused''), annexB = False,
      destructureNull = ''Cannot destructure''\<rparr>"]
  by (simp add: stringifyError_def quote_def quoteChar_def)

text \<open>
  C7, as stated, fails: a request with no body has no \<open>url\<close>, and the error of the
  response is the message of \<^verbatim>\<open>req.json()\<close>, not \<open>URL is required\<close>.
\<close>

theorem missing_body_message:
  \<open>handler \<lparr>corsHeaders = [(''Access-Control-Allow-Origin'', ''*'')],
      fetch = (\<lambda>u. Rejected ''connection refused''), annexB = False,
      destructureNull = ''Cannot destructure''\<rparr>
     \<lparr>method' = ''POST'', json = Inl ''Unexpected end of JSON input''\<rparr> =
   \<lparr>status = 500,
    headers = [(''Access-Control-Allow-Origin'', ''*''), (''Content-Type'', ''application/json'')],
    body = Raw ''{"error":"Unexpected end of JSON input"}''\<rparr>\<close>
  by (simp add: handler_def tryBlock_def stringifyError_def quote_def quoteChar_def)

text \<open>
  C8, amended. For a request with a \<open>url\<close>: when the target answers with a status that is
  no success, the response has status 500 and the error \<open>Failed to fetch URL:\<close> followed
  by the status text of the target; when \<^verbatim>\<open>fetch\<close> itself rejects, the response has status
  500 and the error is the message \<^verbatim>\<open>fetch\<close> rejected with.
\<close>

theorem fetch_failure:
  assumes "method' req \<noteq> ''OPTIONS''" and "json req = Inr parsed"
    and "urlOf rt parsed = Inr (Some u)" and "truthy (Some u)"
  shows "(fetch rt u = Resolved r \<and> \<not> ok r \<longrightarrow>
      handler rt req =
        \<lparr>status = 500,
         headers = assign ''Content-Type'' ''application/json'' (corsHeaders rt),
         body = Raw (stringifyError (''Failed to fetch URL: '' @ statusText r))\<rparr>) \<and>
    (fetch rt u = Rejected message \<longrightarrow>
      handler rt req =
        \<lparr>status = 500,
         headers = assign ''Content-Type'' ''application/json'' (corsHeaders rt),
         body = Raw (stringifyError message)\<rparr>)"
  using assms by (simp add: handler_def tryBlock_def)

theorem fetch_failure_witness:
  \<open>handler \<lparr>corsHeaders = [(''Access-Control-Allow-Origin'', ''*'')],
      fetch = (\<lambda>u. Resolved \<lparr>ok = False, statusText = ''Not Found'', text' = Inr []\<rparr>),
      annexB = False, destructureNull = ''Cannot destructure''\<rparr>
     \<lparr>method' = ''POST'', json = Inr (JObject [(''url'', JString ''http://a.example/'')])\<rparr> =
   \<lparr>status = 500,
    headers = [(''Access-Control-Allow-Origin'', ''*''), (''Content-Type'', ''application/json'')],
    body = Raw ''{"error":"Failed to fetch URL: Not Found"}''\<rparr> \<and>
   handler \<lparr>corsHeaders = [(''Access-Control-Allow-Origin'', ''*'')],
      fetch = (\<lambda>u. Rejected ''connection refused''), annexB = False,
      destructureNull = ''Cannot destructure''\<rparr>
     \<lparr>method' = ''POST'', json = Inr (JObject [(''url'', JString ''http://a.example/'')])\<rparr> =
   \<lparr>status = 500,
    headers = [(''Access-Control-Allow-Origin'', ''*''), (''Content-Type'', ''application/json'')],
    body = Raw ''{"error":"connection refused"}''\<rparr>\<close>
  using fetch_failure [of
      "\<lparr>method' = ''POST'', json = Inr (JObject [(''url'', JString ''http://a.example/'')])\<rparr>"
      "JObject [(''url'', JString ''http://a.example/'')]"
      "\<lparr>corsHeaders = [(''Access-Control-Allow-Origin'', ''*'')],
      fetch = (\<lambda>u. Resolved \<lparr>ok = False, statusText = ''Not Found'', text' = Inr []\<rparr>),
      annexB = False, destructureNull = ''Cannot destructure''\<rparr>"
      "JString ''http://a.example/''"
      "\<lparr>ok = False, statusText = ''Not Found'', text' = Inr []\<rparr>"]
    fetch_failure [of
      "\<lparr>method' = ''POST'', json = Inr (JObject [(''url'', JString ''http://a.example/'')])\<rparr>"
      "JObject [(''url'', JString ''http://a.example/'')]"
      "\<lparr>corsHeaders = [(''Access-Control-Allow-Origin'', ''*'')],
      fetch = (\<lambda>u. Rejected ''connection refused''), annexB = False,
      destructureNull = ''Cannot destructure''\<rparr>"
      "JString ''http://a.example/''" _ "''connection refused''"]
  by (simp add: stringifyError_def quote_def quoteChar_def)

text \<open>
  C8, as stated, fails: when the transport fails there is no status text, and the error of
  the response is the message of the transport alone.
\<close>

theorem transport_failure_message:
  \<open>body (handler \<lparr>corsHeaders = [(''Access-Control-Allow-Origin'', ''*'')],
      fetch = (\<lambda>u. Rejected ''connection refused''), annexB = False,
      destructureNull = ''Cannot destructure''\<rparr>
     \<lparr>method' = ''POST'', json = Inr (JObject [(''url'', JString ''http://a.example/'')])\<rparr>) =
   Raw ''{"error":"connection refused"}''\<close>
  by (simp add: handler_def tryBlock_def stringifyError_def quote_def quoteChar_def)

text \<open>
  C9, amended. Every \<^verbatim>\<open>OPTIONS\<close> request is answered with status 200, the cross-origin
  headers and the body \<open>ok\<close>.
\<close>

theorem preflight:
  "method' req = ''OPTIONS'' \<Longrightarrow>
   handler rt req = \<lparr>status = 200, headers = corsHeaders rt, body = Raw ''ok''\<rparr>"
  by (simp add: handler_def)

theorem preflight_witness:
  "handler \<lparr>corsHeaders = [(''Access-Control-Allow-Origin'', ''*'')],
      fetch = (\<lambda>u. Rejected ''connection refused''), annexB = False,
      destructureNull = ''Cannot destructure''\<rparr>
     \<lparr>method' = ''OPTIONS'', json = Inl ''Unexpected end of JSON input''\<rparr> =
   \<lparr>status = 200, headers = [(''Access-Control-Allow-Origin'', ''*'')], body = Raw ''ok''\<rparr>"
  using preflight [of "\<lparr>method' = ''OPTIONS'', json = Inl ''Unexpected end of JSON input''\<rparr>"
      "\<lparr>corsHeaders = [(''Access-Control-Allow-Origin'', ''*'')],
      fetch = (\<lambda>u. Rejected ''connection refused''), annexB = False,
      destructureNull = ''Cannot destructure''\<rparr>"]
  by simp

text \<open>
  C9, as stated, fails: the body of the answer to a preflight request is not empty.
\<close>

theorem preflight_body_not_empty:
  "body (handler \<lparr>corsHeaders = [(''Access-Control-Allow-Origin'', ''*'')],
      fetch = (\<lambda>u. Rejected ''connection refused''), annexB = False,
      destructureNull = ''Cannot destructure''\<rparr>
     \<lparr>method' = ''OPTIONS'', json = Inl ''Unexpected end of JSON input''\<rparr>) \<noteq> Raw []"
  by (simp add: handler_def)

end
